theory Spec2Isabelle
  imports
    Complex_Main
    "HOL-Library.Sublist"
    "HOL-Library.Char_ord"
    "HOL-Library.List_Lexorder"
    "HOL-Library.Log_Nat"
begin

section \<open>simple\_model\_counter.py: a shallow embedding\<close>

text \<open>
  The script reads dbt \<^verbatim>\<open>run_results.json\<close> reports, counts the records whose
  identifier starts with \<^verbatim>\<open>model.\<close>, and prints a report. The embedding follows
  the three functions of the source: \<^verbatim>\<open>find_run_results_files\<close>,
  \<^verbatim>\<open>count_models\<close> and \<^verbatim>\<open>main\<close>.

  Python strings are modelled as \<^typ>\<open>string\<close> (their UTF-8 bytes: prefix and suffix
  tests, the replacement of the ASCII letter Z and the lexicographic order are the same
  on the bytes as on the code points). Python's unbounded integers are \<^typ>\<open>int\<close>.
  Every exception the source can raise is a value of \<open>error\<close>, and a function that can
  raise returns \<open>error + 'a\<close>.
\<close>

subsection \<open>Exceptions\<close>

datatype error =
    AttributeError
  | TypeError
  | OverflowError
  | ZeroDivisionError
  | OSError
  | UnicodeDecodeError

subsection \<open>Python numbers\<close>

text \<open>
  A Python \<^verbatim>\<open>float\<close> is an IEEE 754 binary64 value. A finite one is modelled by the
  rational number it denotes (the two zeros are identified); the infinities and NaN are
  separate values, since \<^verbatim>\<open>json.load\<close> accepts them.
\<close>

datatype pyfloat = Finite rat | PosInf | NegInf | NaN

datatype pynum = PInt int | PFloat pyfloat

definition pow2 :: "int \<Rightarrow> rat" where
  "pow2 k = power_int 2 k"

text \<open>\<open>ilog2 x\<close> is \<open>\<lfloor>log\<^sub>2 x\<rfloor>\<close> for a positive rational \<open>x\<close>.\<close>

definition ilog2 :: "rat \<Rightarrow> int" where
  "ilog2 x =
     (let (p, q) = quotient_of x;
          k = bitlen p - bitlen q
      in if pow2 k \<le> x then k else k - 1)"

text \<open>Rounding to the nearest integer, ties to the even one.\<close>

definition round_half_even :: "rat \<Rightarrow> int" where
  "round_half_even x =
     (let f = \<lfloor>x\<rfloor>;
          d = x - of_int f
      in if d < 1 / 2 then f
         else if 1 / 2 < d then f + 1
         else if even f then f else f + 1)"

text \<open>
  \<open>round_double x\<close> is the binary64 rounding of \<open>x\<close> (to nearest, ties to even) with an
  unbounded exponent above: 53 significant bits, and no bit below \<open>2\<^sup>-\<^sup>1\<^sup>0\<^sup>7\<^sup>4\<close>. A result
  of magnitude \<open>2\<^sup>1\<^sup>0\<^sup>2\<^sup>4\<close> or more has no binary64 representation: \<open>overflows\<close>.
\<close>

definition round_double :: "rat \<Rightarrow> rat" where
  "round_double x =
     (if x = 0 then 0
      else let u = max (ilog2 \<bar>x\<bar> - 52) (- 1074)
           in of_int (round_half_even (x / pow2 u)) * pow2 u)"

definition overflows :: "rat \<Rightarrow> bool" where
  "overflows y = (pow2 1024 \<le> \<bar>y\<bar>)"

text \<open>The result of an IEEE operation whose exact value is \<open>x\<close>: overflow gives an infinity.\<close>

definition to_float :: "rat \<Rightarrow> pyfloat" where
  "to_float x =
     (let y = round_double x
      in if overflows y then (if 0 < y then PosInf else NegInf) else Finite y)"

text \<open>\<^verbatim>\<open>float(i)\<close> for an integer: correctly rounded, \<^verbatim>\<open>OverflowError\<close> when too large.\<close>

definition int_to_float :: "int \<Rightarrow> error + pyfloat" where
  "int_to_float i =
     (let y = round_double (of_int i)
      in if overflows y then Inl OverflowError else Inr (Finite y))"

text \<open>\<^verbatim>\<open>a / b\<close> on two integers: the correctly rounded quotient.\<close>

definition int_truediv :: "int \<Rightarrow> int \<Rightarrow> error + pyfloat" where
  "int_truediv a b =
     (if b = 0 then Inl ZeroDivisionError
      else let y = round_double (of_int a / of_int b)
           in if overflows y then Inl OverflowError else Inr (Finite y))"

fun float_add :: "pyfloat \<Rightarrow> pyfloat \<Rightarrow> pyfloat" where
  "float_add (Finite a) (Finite b) = to_float (a + b)"
| "float_add NaN _ = NaN"
| "float_add _ NaN = NaN"
| "float_add PosInf NegInf = NaN"
| "float_add NegInf PosInf = NaN"
| "float_add PosInf _ = PosInf"
| "float_add NegInf _ = NegInf"
| "float_add (Finite a) g = g"

fun float_mul :: "pyfloat \<Rightarrow> pyfloat \<Rightarrow> pyfloat" where
  "float_mul (Finite a) (Finite b) = to_float (a * b)"
| "float_mul NaN _ = NaN"
| "float_mul _ NaN = NaN"
| "float_mul (Finite a) PosInf = (if a = 0 then NaN else if 0 < a then PosInf else NegInf)"
| "float_mul (Finite a) NegInf = (if a = 0 then NaN else if 0 < a then NegInf else PosInf)"
| "float_mul PosInf (Finite b) = (if b = 0 then NaN else if 0 < b then PosInf else NegInf)"
| "float_mul NegInf (Finite b) = (if b = 0 then NaN else if 0 < b then NegInf else PosInf)"
| "float_mul PosInf PosInf = PosInf"
| "float_mul NegInf NegInf = PosInf"
| "float_mul PosInf NegInf = NegInf"
| "float_mul NegInf PosInf = NegInf"

text \<open>Python's float division raises on a zero divisor, also for an infinite dividend.\<close>

fun float_truediv :: "pyfloat \<Rightarrow> pyfloat \<Rightarrow> error + pyfloat" where
  "float_truediv f (Finite b) =
     (if b = 0 then Inl ZeroDivisionError
      else case f of
             Finite a \<Rightarrow> Inr (to_float (a / b))
           | PosInf \<Rightarrow> Inr (if 0 < b then PosInf else NegInf)
           | NegInf \<Rightarrow> Inr (if 0 < b then NegInf else PosInf)
           | NaN \<Rightarrow> Inr NaN)"
| "float_truediv (Finite a) PosInf = Inr (Finite 0)"
| "float_truediv (Finite a) NegInf = Inr (Finite 0)"
| "float_truediv _ _ = Inr NaN"

text \<open>\<^verbatim>\<open>x > 0\<close> on a float: false for NaN.\<close>

fun float_gt_zero :: "pyfloat \<Rightarrow> bool" where
  "float_gt_zero (Finite a) = (0 < a)"
| "float_gt_zero PosInf = True"
| "float_gt_zero NegInf = False"
| "float_gt_zero NaN = False"

fun num_gt_zero :: "pynum \<Rightarrow> bool" where
  "num_gt_zero (PInt i) = (0 < i)"
| "num_gt_zero (PFloat f) = float_gt_zero f"

text \<open>\<^verbatim>\<open>x + y\<close>: integer addition is exact; a mixed sum converts the integer first.\<close>

fun py_add :: "pynum \<Rightarrow> pynum \<Rightarrow> error + pynum" where
  "py_add (PInt a) (PInt b) = Inr (PInt (a + b))"
| "py_add (PInt a) (PFloat g) =
     (case int_to_float a of Inl e \<Rightarrow> Inl e | Inr f \<Rightarrow> Inr (PFloat (float_add f g)))"
| "py_add (PFloat f) (PInt b) =
     (case int_to_float b of Inl e \<Rightarrow> Inl e | Inr g \<Rightarrow> Inr (PFloat (float_add f g)))"
| "py_add (PFloat f) (PFloat g) = Inr (PFloat (float_add f g))"

text \<open>\<^verbatim>\<open>x * n\<close> for a float \<open>x\<close> and an integer \<open>n\<close>.\<close>

definition float_mul_int :: "pyfloat \<Rightarrow> int \<Rightarrow> error + pyfloat" where
  "float_mul_int f n =
     (case int_to_float n of Inl e \<Rightarrow> Inl e | Inr g \<Rightarrow> Inr (float_mul f g))"

text \<open>\<^verbatim>\<open>x / n\<close> for a number \<open>x\<close> and an integer \<open>n\<close>.\<close>

fun py_truediv_int :: "pynum \<Rightarrow> int \<Rightarrow> error + pyfloat" where
  "py_truediv_int (PInt a) n = int_truediv a n"
| "py_truediv_int (PFloat f) n =
     (case int_to_float n of Inl e \<Rightarrow> Inl e | Inr g \<Rightarrow> float_truediv f g)"

text \<open>
  The builtin \<^verbatim>\<open>sum\<close>: starting from the integer 0, the items are added from left to
  right, each float addition rounded. (Interpreters from 3.12 on compensate the rounding
  errors of a float sum; the two agree when the additions are exact, as in the examples
  below.)
\<close>

fun sum_from :: "pynum \<Rightarrow> pynum list \<Rightarrow> error + pynum" where
  "sum_from acc [] = Inr acc"
| "sum_from acc (x # xs) =
     (case py_add acc x of Inl e \<Rightarrow> Inl e | Inr acc' \<Rightarrow> sum_from acc' xs)"

definition py_sum :: "pynum list \<Rightarrow> error + pynum" where
  "py_sum xs = sum_from (PInt 0) xs"

text \<open>
  The builtin \<^verbatim>\<open>round(x, ndigits)\<close> for \<open>ndigits \<ge> 0\<close>: an integer is returned as it is;
  a finite float is rounded, on its exact value, to the nearest multiple of
  \<open>10\<^sup>-\<^sup>n\<close> (ties to even) and the float nearest to that decimal is returned; infinities
  and NaN round to themselves.
\<close>

definition round_decimal :: "nat \<Rightarrow> rat \<Rightarrow> rat" where
  "round_decimal n a = round_double (of_int (round_half_even (a * 10 ^ n)) / 10 ^ n)"

fun py_round :: "pynum \<Rightarrow> nat \<Rightarrow> error + pynum" where
  "py_round (PInt i) n = Inr (PInt i)"
| "py_round (PFloat (Finite a)) n =
     (let y = round_decimal n a
      in if overflows y then Inl OverflowError else Inr (PFloat (Finite y)))"
| "py_round (PFloat f) n = Inr (PFloat f)"

text \<open>The rational value of a number, when it has one.\<close>

fun num_value :: "pynum \<Rightarrow> rat option" where
  "num_value (PInt i) = Some (of_int i)"
| "num_value (PFloat (Finite a)) = Some a"
| "num_value (PFloat f) = None"

subsection \<open>Parsed JSON documents\<close>

text \<open>
  What \<^verbatim>\<open>json.load\<close> returns: \<^verbatim>\<open>None\<close>, a bool, an int, a float, a string, a list
  or a dict. A dict is an association list read with \<open>map_of\<close>.
\<close>

datatype jvalue =
    JNull
  | JBool bool
  | JInt int
  | JFloat pyfloat
  | JStr string
  | JList "jvalue list"
  | JDict "(string \<times> jvalue) list"

text \<open>\<^verbatim>\<open>d.get(key, default)\<close> on a dict.\<close>

definition dict_get :: "(string \<times> jvalue) list \<Rightarrow> string \<Rightarrow> jvalue \<Rightarrow> jvalue" where
  "dict_get d k dflt = (case map_of d k of Some v \<Rightarrow> v | None \<Rightarrow> dflt)"

text \<open>\<^verbatim>\<open>x.get(key, default)\<close> on any value: only a dict has the method.\<close>

fun py_get :: "jvalue \<Rightarrow> string \<Rightarrow> jvalue \<Rightarrow> error + jvalue" where
  "py_get (JDict d) k dflt = Inr (dict_get d k dflt)"
| "py_get _ k dflt = Inl AttributeError"

text \<open>
  \<^verbatim>\<open>for result in results\<close>: a list gives its items, a dict its keys, a string its
  characters; nothing else can be iterated.
\<close>

fun py_iter :: "jvalue \<Rightarrow> error + jvalue list" where
  "py_iter (JList xs) = Inr xs"
| "py_iter (JDict d) = Inr (map (\<lambda>k. JStr k) (remdups (map fst d)))"
| "py_iter (JStr s) = Inr (map (\<lambda>c. JStr [c]) s)"
| "py_iter _ = Inl TypeError"

definition startswith :: "string \<Rightarrow> string \<Rightarrow> bool" where
  "startswith s p = prefix p s"

definition endswith :: "string \<Rightarrow> string \<Rightarrow> bool" where
  "endswith s p = suffix p s"

text \<open>\<^verbatim>\<open>unique_id.startswith('model.')\<close>: only a string has the method.\<close>

fun py_startswith :: "jvalue \<Rightarrow> string \<Rightarrow> error + bool" where
  "py_startswith (JStr s) p = Inr (startswith s p)"
| "py_startswith _ p = Inl AttributeError"

text \<open>
  The operand of \<^verbatim>\<open>execution_time > 0\<close>: an int or a float, or a bool (an int in
  Python, \<^verbatim>\<open>True\<close> being 1); any other value raises \<^verbatim>\<open>TypeError\<close>.
\<close>

fun as_number :: "jvalue \<Rightarrow> error + pynum" where
  "as_number (JInt i) = Inr (PInt i)"
| "as_number (JFloat f) = Inr (PFloat f)"
| "as_number (JBool b) = Inr (PInt (if b then 1 else 0))"
| "as_number _ = Inl TypeError"

subsection \<open>count\_models: the loop over the results\<close>

text \<open>
  The loop state is \<open>(total_models, successful_models, failed_models, execution_times)\<close>,
  written \<open>(total_n, successful_n, failed_n, exec_times)\<close> here since the first three are
  also the fields of the summary. A bool in the sample is kept as the integer it is.
  \<open>count_result\<close> is the body of \<^verbatim>\<open>for result in results\<close>, with the source's order
  of evaluation: the identifier is read and tested first; the status and the execution
  time are read only for a record that qualifies.
\<close>

type_synonym counters = "int \<times> int \<times> int \<times> pynum list"

fun count_result :: "counters \<Rightarrow> jvalue \<Rightarrow> error + counters" where
  "count_result (total_n, successful_n, failed_n, exec_times) result =
     (case py_get result ''unique_id'' (JStr []) of
        Inl e \<Rightarrow> Inl e
      | Inr unique_id \<Rightarrow>
          (case py_startswith unique_id ''model.'' of
             Inl e \<Rightarrow> Inl e
           | Inr False \<Rightarrow> Inr (total_n, successful_n, failed_n, exec_times)
           | Inr True \<Rightarrow>
               (case py_get result ''status'' (JStr ''unknown'') of
                  Inl e \<Rightarrow> Inl e
                | Inr status \<Rightarrow>
                    (case py_get result ''execution_time'' (JInt 0) of
                       Inl e \<Rightarrow> Inl e
                     | Inr execution_time \<Rightarrow>
                         (case as_number execution_time of
                            Inl e \<Rightarrow> Inl e
                          | Inr t \<Rightarrow>
                              Inr (total_n + 1,
                                   if status = JStr ''success'' then successful_n + 1 else successful_n,
                                   if status = JStr ''success'' then failed_n else failed_n + 1,
                                   if num_gt_zero t then exec_times @ [t] else exec_times))))))"

fun count_results :: "counters \<Rightarrow> jvalue list \<Rightarrow> error + counters" where
  "count_results c [] = Inr c"
| "count_results c (result # results) =
     (case count_result c result of
        Inl e \<Rightarrow> Inl e
      | Inr c' \<Rightarrow> count_results c' results)"

subsection \<open>count\_models: the statistics\<close>

text \<open>
  \<^verbatim>\<open>(successful_models / total_models * 100) if total_models > 0 else 0\<close>
\<close>

definition success_rate_of :: "int \<Rightarrow> int \<Rightarrow> error + pynum" where
  "success_rate_of successful_n total_n =
     (if 0 < total_n then
        (case int_truediv successful_n total_n of
           Inl e \<Rightarrow> Inl e
         | Inr q \<Rightarrow>
             (case float_mul_int q 100 of
                Inl e \<Rightarrow> Inl e
              | Inr r \<Rightarrow> Inr (PFloat r)))
      else Inr (PInt 0))"

text \<open>
  \<^verbatim>\<open>sum(execution_times) / len(execution_times) if execution_times else 0\<close>
\<close>

definition avg_of :: "pynum list \<Rightarrow> error + pynum" where
  "avg_of exec_times =
     (if exec_times \<noteq> [] then
        (case py_sum exec_times of
           Inl e \<Rightarrow> Inl e
         | Inr s \<Rightarrow>
             (case py_truediv_int s (int (length exec_times)) of
                Inl e \<Rightarrow> Inl e
              | Inr a \<Rightarrow> Inr (PFloat a)))
      else Inr (PInt 0))"

subsection \<open>count\_models: the run date\<close>

record pydate =
  year :: nat
  month :: nat
  day :: nat

record datetime =
  date :: pydate
  hour :: nat
  minute :: nat
  second :: nat
  microsecond :: nat
  utcoffset :: "int option"

definition digit :: "nat \<Rightarrow> char" where
  "digit d = ''0123456789'' ! d"

fun decimal :: "nat \<Rightarrow> string" where
  "decimal n = (if n < 10 then [digit n] else decimal (n div 10) @ [digit (n mod 10)])"

declare decimal.simps [simp del]

definition zfill :: "nat \<Rightarrow> string \<Rightarrow> string" where
  "zfill w s = replicate (w - length s) (CHR ''0'') @ s"

text \<open>\<^verbatim>\<open>date.isoformat()\<close>: \<^verbatim>\<open>YYYY-MM-DD\<close>.\<close>

definition date_isoformat :: "pydate \<Rightarrow> string" where
  "date_isoformat d =
     zfill 4 (decimal (year d)) @ ''-'' @ zfill 2 (decimal (month d)) @ ''-'' @
     zfill 2 (decimal (day d))"

text \<open>\<^verbatim>\<open>s.replace('Z', '+00:00')\<close>: every occurrence of the letter is replaced.\<close>

definition replace_char :: "char \<Rightarrow> string \<Rightarrow> string \<Rightarrow> string" where
  "replace_char c new s = concat (map (\<lambda>x. if x = c then new else [x]) s)"

fun py_replace :: "jvalue \<Rightarrow> char \<Rightarrow> string \<Rightarrow> error + string" where
  "py_replace (JStr s) c new = Inr (replace_char c new s)"
| "py_replace _ c new = Inl AttributeError"

text \<open>
  The block that sets \<^verbatim>\<open>run_date\<close>. The library function
  \<^verbatim>\<open>datetime.fromisoformat\<close> is a parameter: on a string it returns a datetime or
  raises \<^verbatim>\<open>ValueError\<close> (\<open>None\<close>), which the source catches.
\<close>

definition run_date_of :: "(string \<Rightarrow> datetime option) \<Rightarrow> jvalue \<Rightarrow> error + string" where
  "run_date_of parse generated_at =
     (if generated_at \<noteq> JStr ''unknown'' then
        (case py_replace generated_at (CHR ''Z'') ''+00:00'' of
           Inl e \<Rightarrow> Inl e
         | Inr s \<Rightarrow>
             (case parse s of
                None \<Rightarrow> Inr ''unknown''
              | Some run_timestamp \<Rightarrow> Inr (date_isoformat (date run_timestamp))))
      else Inr ''unknown'')"

subsection \<open>The environment\<close>

text \<open>
  What \<^verbatim>\<open>open(file_path)\<close> followed by \<^verbatim>\<open>json.load\<close> does: the file is missing
  (\<^verbatim>\<open>FileNotFoundError\<close>), its text is not JSON (\<^verbatim>\<open>JSONDecodeError\<close>, with its
  message), another exception is raised (a directory, no permission, bytes that do not
  decode), or a document is returned.
\<close>

datatype load_result =
    FileNotFound
  | JSONDecodeError string
  | Raises error
  | Loaded jvalue

text \<open>
  The file system and the library functions the script calls. \<open>glob w pattern recursive\<close>
  is \<^verbatim>\<open>glob.glob(pattern, recursive=recursive)\<close>.
\<close>

record world =
  isfile :: "string \<Rightarrow> bool"
  isdir :: "string \<Rightarrow> bool"
  glob :: "string \<Rightarrow> bool \<Rightarrow> string list"
  json_load :: "string \<Rightarrow> load_result"
  fromisoformat :: "string \<Rightarrow> datetime option"

subsection \<open>count\_models\<close>

record stats =
  file_path :: string
  run_date :: string
  run_timestamp :: jvalue
  dbt_version :: jvalue
  invocation_id :: jvalue
  total_models :: int
  successful_models :: int
  failed_models :: int
  success_rate :: pynum
  avg_execution_time :: pynum
  total_execution_time :: pynum

definition bind_err :: "error + 'a \<Rightarrow> ('a \<Rightarrow> error + 'b) \<Rightarrow> error + 'b" where
  "bind_err m f = (case m of Inl e \<Rightarrow> Inl e | Inr x \<Rightarrow> f x)"

text \<open>The body of \<^verbatim>\<open>count_models\<close> after the document has been loaded.\<close>

definition summarise :: "world \<Rightarrow> string \<Rightarrow> jvalue \<Rightarrow> error + stats" where
  "summarise w fp data =
     bind_err (py_get data ''metadata'' (JDict [])) (\<lambda>metadata.
     bind_err (py_get data ''results'' (JList [])) (\<lambda>results.
     bind_err (py_iter results) (\<lambda>items.
     bind_err (count_results (0, 0, 0, []) items) (\<lambda>(total_n, successful_n, failed_n, exec_times).
     bind_err (success_rate_of successful_n total_n) (\<lambda>rate.
     bind_err (avg_of exec_times) (\<lambda>avg.
     bind_err (py_sum exec_times) (\<lambda>total_time.
     bind_err (py_get metadata ''generated_at'' (JStr ''unknown'')) (\<lambda>generated_at.
     bind_err (run_date_of (fromisoformat w) generated_at) (\<lambda>rdate.
     bind_err (py_get metadata ''dbt_version'' (JStr ''unknown'')) (\<lambda>version.
     bind_err (py_get metadata ''invocation_id'' (JStr ''unknown'')) (\<lambda>invocation.
     bind_err (py_round rate 2) (\<lambda>rate2.
     bind_err (py_round avg 3) (\<lambda>avg3.
     bind_err (py_round total_time 3) (\<lambda>total_time3.
       Inr \<lparr> file_path = fp,
             run_date = rdate,
             run_timestamp = generated_at,
             dbt_version = version,
             invocation_id = invocation,
             total_models = total_n,
             successful_models = successful_n,
             failed_models = failed_n,
             success_rate = rate2,
             avg_execution_time = avg3,
             total_execution_time = total_time3 \<rparr>))))))))))))))"

text \<open>
  \<open>count_models w fp\<close> returns the lines it prints and its result: an exception that
  escapes (\<open>Inl\<close>), \<^verbatim>\<open>None\<close>, or the summary.
\<close>

definition count_models :: "world \<Rightarrow> string \<Rightarrow> string list \<times> (error + stats option)" where
  "count_models w fp =
     (case json_load w fp of
        FileNotFound \<Rightarrow> ([''Error: File '' @ fp @ '' not found.''], Inr None)
      | JSONDecodeError msg \<Rightarrow>
          ([''Error: Invalid JSON in '' @ fp @ '': '' @ msg], Inr None)
      | Raises e \<Rightarrow> ([], Inl e)
      | Loaded data \<Rightarrow>
          ([], case summarise w fp data of Inl e \<Rightarrow> Inl e | Inr s \<Rightarrow> Inr (Some s)))"

subsection \<open>find\_run\_results\_files\<close>

text \<open>\<^verbatim>\<open>os.path.join\<close> of two components, on a POSIX system.\<close>

definition path_join :: "string \<Rightarrow> string \<Rightarrow> string" where
  "path_join a b =
     (if startswith b ''/'' then b
      else if a = [] \<or> endswith a ''/'' then a @ b
      else a @ ''/'' @ b)"

text \<open>
  The function returns the list of files and the lines it prints.
  \<^verbatim>\<open>list(set(files))\<close> keeps one copy of each path, in an order that \<^verbatim>\<open>sorted\<close>
  then replaces.
\<close>

definition find_run_results_files :: "world \<Rightarrow> string \<Rightarrow> string list \<times> string list" where
  "find_run_results_files w p =
     (if isfile w p then
        (if endswith p ''.json'' then ([p], [])
         else ([], [''Warning: '' @ p @ '' is not a JSON file'']))
      else if isdir w p then
        (let pattern1 = path_join p ''run_results.json'';
             pattern2 = path_join p ''**/run_results.json'';
             pattern3 = path_join p ''run_results*.json'';
             files = glob w pattern1 False @ glob w pattern2 True @ glob w pattern3 False;
             run_results_files = remdups files
         in (sort run_results_files,
             if run_results_files = [] then [''No run_results.json files found in '' @ p]
             else []))
      else ([], [''Error: '' @ p @ '' is not a valid file or directory'']))"

subsection \<open>main\<close>

text \<open>The parsed command line.\<close>

record args =
  path :: string
  json :: bool
  recursive :: bool
  verbose :: bool






subsection \<open>Notions used in the properties\<close>

text \<open>A record qualifies when it is a dict whose identifier starts with \<^verbatim>\<open>model.\<close>.\<close>

definition is_model :: "jvalue \<Rightarrow> bool" where
  "is_model r =
     (case r of
        JDict d \<Rightarrow>
          (case map_of d ''unique_id'' of
             Some (JStr s) \<Rightarrow> prefix ''model.'' s
           | _ \<Rightarrow> False)
      | _ \<Rightarrow> False)"

text \<open>A record is a success when its status field is present and is the string \<^verbatim>\<open>success\<close>.\<close>

definition is_success :: "jvalue \<Rightarrow> bool" where
  "is_success r =
     (case r of
        JDict d \<Rightarrow> map_of d ''status'' = Some (JStr ''success'')
      | _ \<Rightarrow> False)"

text \<open>
  The execution time a record brings to the timing sample: the field is present, is a
  number, and is strictly greater than zero.
\<close>

definition timing :: "jvalue \<Rightarrow> pynum option" where
  "timing r =
     (case r of
        JDict d \<Rightarrow>
          (case map_of d ''execution_time'' of
             None \<Rightarrow> None
           | Some v \<Rightarrow>
               (case as_number v of
                  Inl e \<Rightarrow> None
                | Inr t \<Rightarrow> if num_gt_zero t then Some t else None))
      | _ \<Rightarrow> None)"

definition timing_sample :: "jvalue list \<Rightarrow> pynum list" where
  "timing_sample rs = List.map_filter timing (filter is_model rs)"

text \<open>The world in which the file \<open>fp\<close> holds the document \<open>data\<close>.\<close>

definition put_file :: "world \<Rightarrow> string \<Rightarrow> jvalue \<Rightarrow> world" where
  "put_file w fp data = w\<lparr>json_load := (json_load w)(fp := Loaded data)\<rparr>"

text \<open>The document \<open>d\<close> with its results list replaced.\<close>

definition with_results :: "(string \<times> jvalue) list \<Rightarrow> jvalue list \<Rightarrow> jvalue" where
  "with_results d rs = JDict ((''results'', JList rs) # d)"

text \<open>The document \<open>d\<close>, whose metadata is \<open>md\<close>, with the timestamp \<open>g\<close> written into it.\<close>

definition with_generated_at ::
  "(string \<times> jvalue) list \<Rightarrow> (string \<times> jvalue) list \<Rightarrow> jvalue \<Rightarrow> jvalue" where
  "with_generated_at d md g = JDict ((''metadata'', JDict ((''generated_at'', g) # md)) # d)"

text \<open>
  The run date of a timestamp string: the sentinel and a string that does not parse give
  \<^verbatim>\<open>unknown\<close>, a string that parses gives the calendar date.
\<close>

definition string_run_date :: "(string \<Rightarrow> datetime option) \<Rightarrow> string \<Rightarrow> string" where
  "string_run_date parse g =
     (if g = ''unknown'' then ''unknown''
      else case parse (replace_char (CHR ''Z'') ''+00:00'' g) of
             None \<Rightarrow> ''unknown''
           | Some ts \<Rightarrow> date_isoformat (date ts))"






subsection \<open>A parser for the timestamps that \<^verbatim>\<open>isoformat\<close> writes\<close>

text \<open>
  \<^verbatim>\<open>YYYY-MM-DD\<close>, alone or followed by a separator, \<^verbatim>\<open>HH:MM:SS\<close>, an optional
  fraction of three or six digits and an optional offset \<^verbatim>\<open>+HH:MM\<close> or \<^verbatim>\<open>-HH:MM\<close>.
  Every version of \<^verbatim>\<open>datetime.fromisoformat\<close> accepts these strings; this parser
  stands for the library function in the example world below.
\<close>

definition digit_value :: "char \<Rightarrow> nat option" where
  "digit_value c =
     (let n = (of_char c :: nat) in if 48 \<le> n \<and> n \<le> 57 then Some (n - 48) else None)"

fun digits_value :: "nat \<Rightarrow> string \<Rightarrow> nat option" where
  "digits_value acc [] = Some acc"
| "digits_value acc (c # cs) =
     (case digit_value c of None \<Rightarrow> None | Some d \<Rightarrow> digits_value (10 * acc + d) cs)"

definition number :: "string \<Rightarrow> nat option" where
  "number s = (if s = [] then None else digits_value 0 s)"

definition leap_year :: "nat \<Rightarrow> bool" where
  "leap_year y = (y mod 4 = 0 \<and> (y mod 100 \<noteq> 0 \<or> y mod 400 = 0))"

definition days_in_month :: "nat \<Rightarrow> nat \<Rightarrow> nat" where
  "days_in_month y m =
     (if m = 2 then (if leap_year y then 29 else 28)
      else if m = 4 \<or> m = 6 \<or> m = 9 \<or> m = 11 then 30 else 31)"

definition parse_date :: "string \<Rightarrow> pydate option" where
  "parse_date s =
     (if length s = 10 \<and> s ! 4 = CHR ''-'' \<and> s ! 7 = CHR ''-'' then
        (case (number (take 4 s), number (take 2 (drop 5 s)), number (drop 8 s)) of
           (Some y, Some m, Some d) \<Rightarrow>
             if 1 \<le> y \<and> 1 \<le> m \<and> m \<le> 12 \<and> 1 \<le> d \<and> d \<le> days_in_month y m
             then Some \<lparr>year = y, month = m, day = d\<rparr> else None
         | _ \<Rightarrow> None)
      else None)"

text \<open>\<^verbatim>\<open>HH:MM:SS\<close> with an optional fraction: hour, minute, second, microsecond.\<close>

definition parse_clock :: "string \<Rightarrow> (nat \<times> nat \<times> nat \<times> nat) option" where
  "parse_clock s =
     (if 8 \<le> length s \<and> s ! 2 = CHR '':'' \<and> s ! 5 = CHR '':'' then
        (case (number (take 2 s), number (take 2 (drop 3 s)), number (take 2 (drop 6 s))) of
           (Some h, Some m, Some sec) \<Rightarrow>
             if h < 24 \<and> m < 60 \<and> sec < 60 then
               (let frac = drop 8 s
                in if frac = [] then Some (h, m, sec, 0)
                   else if hd frac = CHR ''.'' \<and> length frac = 4 then
                     (case number (tl frac) of
                        Some ms \<Rightarrow> Some (h, m, sec, 1000 * ms) | None \<Rightarrow> None)
                   else if hd frac = CHR ''.'' \<and> length frac = 7 then
                     (case number (tl frac) of
                        Some us \<Rightarrow> Some (h, m, sec, us) | None \<Rightarrow> None)
                   else None)
             else None
         | _ \<Rightarrow> None)
      else None)"

text \<open>The offset in seconds; the empty string is a timestamp without offset.\<close>

definition parse_offset :: "string \<Rightarrow> int option option" where
  "parse_offset s =
     (if s = [] then Some None
      else if length s = 6 \<and> s ! 3 = CHR '':'' then
        (case (number (take 2 (drop 1 s)), number (drop 4 s)) of
           (Some h, Some m) \<Rightarrow>
             if h < 24 \<and> m < 60 then
               Some (Some ((if hd s = CHR ''-'' then - 1 else 1) * (3600 * int h + 60 * int m)))
             else None
         | _ \<Rightarrow> None)
      else None)"

definition iso_parser :: "string \<Rightarrow> datetime option" where
  "iso_parser s =
     (case parse_date (take 10 s) of
        None \<Rightarrow> None
      | Some d \<Rightarrow>
          if length s = 10 then
            Some \<lparr>date = d, hour = 0, minute = 0, second = 0, microsecond = 0,
                  utcoffset = None\<rparr>
          else
            (let t = drop 11 s;
                 clock = takeWhile (\<lambda>c. c \<noteq> CHR ''+'' \<and> c \<noteq> CHR ''-'') t;
                 off = dropWhile (\<lambda>c. c \<noteq> CHR ''+'' \<and> c \<noteq> CHR ''-'') t
             in case (parse_clock clock, parse_offset off) of
                  (Some (h, m, sec, us), Some tz) \<Rightarrow>
                    Some \<lparr>date = d, hour = h, minute = m, second = sec, microsecond = us,
                          utcoffset = tz\<rparr>
                | _ \<Rightarrow> None))"

subsection \<open>An example world\<close>

definition model_record :: "string \<Rightarrow> string \<Rightarrow> jvalue \<Rightarrow> jvalue" where
  "model_record uid st t =
     JDict [(''unique_id'', JStr uid), (''status'', JStr st), (''execution_time'', t)]"

text \<open>One report with three models: two successes and one failure, times 1.0, 2.0 and 0.\<close>

definition three_models_doc :: jvalue where
  "three_models_doc =
     JDict [(''metadata'',
             JDict [(''generated_at'', JStr ''2024-01-15T10:30:00Z''),
                    (''dbt_version'', JStr ''1.7.4'')]),
            (''results'',
             JList [model_record ''model.shop.orders'' ''success'' (JFloat (Finite 1)),
                    model_record ''model.shop.customers'' ''success'' (JFloat (Finite 2)),
                    model_record ''model.shop.payments'' ''error'' (JFloat (Finite 0))])]"

text \<open>
  A report without metadata whose results mix models with a test, a record without
  identifier, an identifier in capitals, and a model without status and execution time.
\<close>

definition mixed_results :: "jvalue list" where
  "mixed_results =
     [model_record ''model.shop.orders'' ''success'' (JFloat (Finite 1)),
      model_record ''test.shop.not_null_orders_id'' ''success'' (JFloat (Finite 5)),
      JDict [(''status'', JStr ''success''), (''execution_time'', JFloat (Finite 7))],
      model_record ''model.shop.customers'' ''success'' (JInt 2),
      model_record ''Model.shop.upper'' ''success'' (JFloat (Finite 4)),
      JDict [(''unique_id'', JStr ''model.shop.payments'')]]"

definition mixed_doc :: jvalue where
  "mixed_doc = JDict [(''results'', JList mixed_results)]"

definition null_timestamp_doc :: jvalue where
  "null_timestamp_doc = JDict [(''metadata'', JDict [(''generated_at'', JNull)])]"

definition demo_load :: "string \<Rightarrow> load_result" where
  "demo_load p =
     (if p = ''logs/run_results.json'' then Loaded three_models_doc
      else if p = ''logs/sub/run_results.json'' then Loaded mixed_doc
      else if p = ''logs/run_results_old.json'' then
        JSONDecodeError ''Expecting value: line 1 column 1 (char 0)''
      else if p = ''odd/run_results.json'' then Loaded (JDict [])
      else if p = ''odd/run_results_list.json'' then Loaded (JList [])
      else if p = ''null_timestamp.json'' then Loaded null_timestamp_doc
      else FileNotFound)"

definition demo_glob :: "string \<Rightarrow> bool \<Rightarrow> string list" where
  "demo_glob pat rec =
     (if pat = ''logs/run_results.json'' then [''logs/run_results.json'']
      else if pat = ''logs/**/run_results.json'' \<and> rec then
        [''logs/run_results.json'', ''logs/sub/run_results.json'']
      else if pat = ''logs/run_results*.json'' then
        [''logs/run_results_old.json'', ''logs/run_results.json'']
      else if pat = ''odd/run_results.json'' then [''odd/run_results.json'']
      else if pat = ''odd/**/run_results.json'' \<and> rec then [''odd/run_results.json'']
      else if pat = ''odd/run_results*.json'' then
        [''odd/run_results_list.json'', ''odd/run_results.json'']
      else [])"

definition demo :: world where
  "demo =
     \<lparr> isfile = (\<lambda>p. p \<in> set [''logs/run_results.json'', ''logs/sub/run_results.json'',
                               ''logs/run_results_old.json'', ''odd/run_results.json'',
                               ''odd/run_results_list.json'', ''null_timestamp.json'']),
       isdir = (\<lambda>p. p \<in> set [''logs'', ''logs/sub'', ''odd'']),
       glob = demo_glob,
       json_load = demo_load,
       fromisoformat = iso_parser \<rparr>"

definition three_models_stats :: stats where
  "three_models_stats =
     \<lparr> file_path = ''logs/run_results.json'',
       run_date = ''2024-01-15'',
       run_timestamp = JStr ''2024-01-15T10:30:00Z'',
       dbt_version = JStr ''1.7.4'',
       invocation_id = JStr ''unknown'',
       total_models = 3,
       successful_models = 2,
       failed_models = 1,
       success_rate = PFloat (Finite (4691484174324859 / 2 ^ 46)),
       avg_execution_time = PFloat (Finite (3 / 2)),
       total_execution_time = PFloat (Finite 3) \<rparr>"

definition mixed_stats :: stats where
  "mixed_stats =
     \<lparr> file_path = ''logs/sub/run_results.json'',
       run_date = ''unknown'',
       run_timestamp = JStr ''unknown'',
       dbt_version = JStr ''unknown'',
       invocation_id = JStr ''unknown'',
       total_models = 3,
       successful_models = 2,
       failed_models = 1,
       success_rate = PFloat (Finite (4691484174324859 / 2 ^ 46)),
       avg_execution_time = PFloat (Finite (3 / 2)),
       total_execution_time = PFloat (Finite 3) \<rparr>"

definition empty_stats :: "string \<Rightarrow> stats" where
  "empty_stats fp =
     \<lparr> file_path = fp,
       run_date = ''unknown'',
       run_timestamp = JStr ''unknown'',
       dbt_version = JStr ''unknown'',
       invocation_id = JStr ''unknown'',
       total_models = 0,
       successful_models = 0,
       failed_models = 0,
       success_rate = PInt 0,
       avg_execution_time = PInt 0,
       total_execution_time = PInt 0 \<rparr>"

section \<open>Lemmas\<close>

subsection \<open>Rounding to binary64\<close>

lemma pow2_pos: "0 < pow2 k"
  by (simp add: pow2_def)

lemma pow2_add: "pow2 (a + b) = pow2 a * pow2 b"
  by (simp add: pow2_def power_int_add)

lemma pow2_diff: "pow2 (a - b) = pow2 a / pow2 b"
  by (simp add: pow2_def power_int_diff)

lemma pow2_nat: "0 \<le> k \<Longrightarrow> pow2 k = 2 ^ nat k"
  by (simp add: pow2_def power_int_nonneg_exp)

lemma pow2_mono: "a \<le> b \<Longrightarrow> pow2 a \<le> pow2 b"
  by (simp add: pow2_def power_int_increasing)

lemma pow2_less_cancel: "pow2 a < pow2 b \<Longrightarrow> a < b"
  using pow2_mono [of b a] by (cases "a < b") auto

lemma pow2_of_int: "0 \<le> k \<Longrightarrow> pow2 k = of_int (2 ^ nat k)"
  by (simp add: pow2_nat)

lemma bitlen_pow2_bounds:
  assumes "0 < (p::int)"
  shows "pow2 (bitlen p - 1) \<le> of_int p" and "of_int p < pow2 (bitlen p)"
proof -
  from assms have b: "2 ^ nat (bitlen p - 1) \<le> p" "p < 2 ^ nat (bitlen p)"
    using bitlen_bounds [of p] by auto
  from assms have ge1: "1 \<le> bitlen p"
    by (simp add: bitlen_alt_def)
  have "(of_int (2 ^ nat (bitlen p - 1)) :: rat) \<le> of_int p"
    using b(1) by (simp only: of_int_le_iff)
  then show "pow2 (bitlen p - 1) \<le> of_int p"
    using ge1 by (simp add: pow2_nat)
  have "(of_int p :: rat) < of_int (2 ^ nat (bitlen p))"
    using b(2) by (simp only: of_int_less_iff)
  then show "of_int p < pow2 (bitlen p)"
    using ge1 by (simp add: pow2_nat)
qed

lemma ilog2_bounds:
  assumes "0 < x"
  shows "pow2 (ilog2 x) \<le> x" and "x < pow2 (ilog2 x + 1)"
proof -
  obtain p q where pq: "quotient_of x = (p, q)"
    by (cases "quotient_of x")
  then have q: "0 < q" and x: "x = of_int p / of_int q"
    by (auto dest: quotient_of_denom_pos quotient_of_div)
  from assms x q have p: "0 < p"
    by (simp add: zero_less_divide_iff)
  define k where "k = bitlen p - bitlen q"
  have il: "ilog2 x = (if pow2 k \<le> x then k else k - 1)"
    by (simp add: ilog2_def pq k_def Let_def)
  note bp = bitlen_pow2_bounds [OF p] and bq = bitlen_pow2_bounds [OF q]
  have qpos: "(0::rat) < of_int q" using q by simp
  have lower: "pow2 (k - 1) \<le> x"
  proof -
    have "pow2 (k - 1) = pow2 (bitlen p - 1) / pow2 (bitlen q)"
      by (simp add: k_def pow2_diff [symmetric] algebra_simps)
    also have "\<dots> \<le> of_int p / pow2 (bitlen q)"
      using bp(1) pow2_pos [of "bitlen q"] by (simp add: divide_right_mono)
    also have "\<dots> \<le> of_int p / of_int q"
      using bq(2) qpos p by (simp add: frac_le)
    finally show ?thesis by (simp add: x)
  qed
  have upper: "x < pow2 (k + 1)"
  proof -
    have "x = of_int p / of_int q" by (rule x)
    also have "\<dots> < pow2 (bitlen p) / of_int q"
      using bp(2) qpos by (simp add: divide_strict_right_mono)
    also have "\<dots> \<le> pow2 (bitlen p) / pow2 (bitlen q - 1)"
      using bq(1) pow2_pos [of "bitlen q - 1"] pow2_pos [of "bitlen p"]
      by (simp add: frac_le)
    also have "\<dots> = pow2 (k + 1)"
      by (simp add: k_def pow2_diff [symmetric] algebra_simps)
    finally show ?thesis .
  qed
  show "pow2 (ilog2 x) \<le> x"
    using lower by (simp add: il)
  show "x < pow2 (ilog2 x + 1)"
    using upper by (auto simp: il not_le)
qed

lemma ilog2_eqI:
  assumes "pow2 k \<le> x" and "x < pow2 (k + 1)"
  shows "ilog2 x = k"
proof -
  have pos: "0 < x"
    using assms(1) pow2_pos [of k] by simp
  note b = ilog2_bounds [OF pos]
  have "pow2 k < pow2 (ilog2 x + 1)"
    using assms(1) b(2) by simp
  then have 1: "k < ilog2 x + 1" by (rule pow2_less_cancel)
  have "pow2 (ilog2 x) < pow2 (k + 1)"
    using assms(2) b(1) by simp
  then have 2: "ilog2 x < k + 1" by (rule pow2_less_cancel)
  from 1 2 show ?thesis by simp
qed

lemma round_half_even_of_int [simp]: "round_half_even (of_int n) = n"
  by (simp add: round_half_even_def)

lemma round_half_even_le:
  assumes "x \<le> of_int c"
  shows "round_half_even x \<le> c"
proof -
  have fl: "\<lfloor>x\<rfloor> \<le> c" using assms by (simp add: floor_le_iff)
  show ?thesis
  proof (cases "\<lfloor>x\<rfloor> = c")
    case True
    then have "of_int c \<le> x" by (metis of_int_floor_le)
    with assms have "x = of_int c" by simp
    then show ?thesis by simp
  next
    case False
    with fl have "\<lfloor>x\<rfloor> + 1 \<le> c" by simp
    then show ?thesis
      by (simp add: round_half_even_def Let_def)
  qed
qed

lemma round_half_even_ge:
  assumes "of_int c \<le> x"
  shows "c \<le> round_half_even x"
proof -
  have "c \<le> \<lfloor>x\<rfloor>" using assms by (simp add: le_floor_iff)
  then show ?thesis
    by (simp add: round_half_even_def Let_def)
qed


lemma pow2_minus: "pow2 (- k) = 1 / pow2 k"
  by (simp add: pow2_def power_int_minus_divide)

lemma pow2_0 [simp]: "pow2 0 = 1"
  by (simp add: pow2_def)

lemma round_double_eqI:
  assumes "pow2 k \<le> \<bar>x\<bar>" and "\<bar>x\<bar> < pow2 (k + 1)"
    and "u = max (k - 52) (- 1074)"
    and "round_half_even (x / pow2 u) = m"
  shows "round_double x = of_int m * pow2 u"
proof -
  have "ilog2 \<bar>x\<bar> = k"
    using assms(1,2) by (rule ilog2_eqI)
  moreover have "x \<noteq> 0"
    using assms(1) pow2_pos [of k] by auto
  ultimately show ?thesis
    using assms(3,4) by (simp add: round_double_def Let_def)
qed

lemma round_double_exact:
  assumes x: "x = of_int m * pow2 e" and m: "\<bar>m\<bar> < 2 ^ 53" and e: "- 1074 \<le> e"
  shows "round_double x = x"
proof (cases "x = 0")
  case True
  then show ?thesis by (simp add: round_double_def)
next
  case False
  then have ax: "0 < \<bar>x\<bar>" by simp
  define u where "u = max (ilog2 \<bar>x\<bar> - 52) (- 1074)"
  have "(of_int \<bar>m\<bar> :: rat) < of_int (2 ^ 53)"
    using m by (simp only: of_int_less_iff)
  then have "\<bar>x\<bar> < pow2 53 * pow2 e"
    using pow2_pos [of e] by (simp add: x abs_mult pow2_nat)
  then have "\<bar>x\<bar> < pow2 (53 + e)"
    by (simp add: pow2_add)
  with ilog2_bounds(1) [OF ax] have "pow2 (ilog2 \<bar>x\<bar>) < pow2 (53 + e)"
    by simp
  then have "ilog2 \<bar>x\<bar> < 53 + e"
    by (rule pow2_less_cancel)
  with e have ue: "u \<le> e"
    by (simp add: u_def)
  have "x / pow2 u = of_int m * pow2 (e - u)"
    by (simp add: x pow2_diff)
  also have "\<dots> = of_int (m * 2 ^ nat (e - u))"
    using ue by (simp add: pow2_nat)
  finally have "round_half_even (x / pow2 u) = m * 2 ^ nat (e - u)"
    by (simp only: round_half_even_of_int)
  then have "of_int (round_half_even (x / pow2 u)) * pow2 u = of_int m * pow2 (e - u) * pow2 u"
    using ue by (simp add: pow2_nat)
  also have "\<dots> = x"
    using pow2_pos [of u] by (simp add: x pow2_diff)
  finally show ?thesis
    using False by (simp add: round_double_def u_def Let_def)
qed

lemma round_double_of_int:
  "\<bar>m\<bar> < 2 ^ 53 \<Longrightarrow> round_double (of_int m) = of_int m"
  by (rule round_double_exact [where e = 0 and m = m]) simp_all

lemma round_double_nonneg:
  assumes "0 \<le> x"
  shows "0 \<le> round_double x"
proof (cases "x = 0")
  case True
  then show ?thesis by (simp add: round_double_def)
next
  case False
  define u where "u = max (ilog2 \<bar>x\<bar> - 52) (- 1074)"
  have "of_int 0 \<le> x / pow2 u"
    using assms pow2_pos [of u] by simp
  then have "0 \<le> round_half_even (x / pow2 u)"
    by (rule round_half_even_ge)
  then show ?thesis
    using False pow2_pos [of u] by (simp add: round_double_def u_def Let_def)
qed

lemma round_double_le_int:
  assumes "x \<le> of_int c" and "0 \<le> x" and "c < 2 ^ 53"
  shows "round_double x \<le> of_int c"
proof (cases "x = 0")
  case True
  with assms show ?thesis by (simp add: round_double_def)
next
  case False
  with assms have pos: "0 < x" by simp
  define u where "u = max (ilog2 \<bar>x\<bar> - 52) (- 1074)"
  have "(of_int c :: rat) < of_int (2 ^ 53)"
    using assms(3) by (simp only: of_int_less_iff)
  with assms(1) have "x < pow2 53"
    by (simp add: pow2_nat)
  with ilog2_bounds(1) [OF pos] have "pow2 (ilog2 x) < pow2 53"
    by simp
  then have "ilog2 x < 53"
    by (rule pow2_less_cancel)
  with pos have u0: "u \<le> 0"
    by (simp add: u_def)
  have pu: "pow2 u = 1 / 2 ^ nat (- u)"
    using u0 pow2_minus [of "- u"] by (simp add: pow2_nat)
  have "x / pow2 u = x * 2 ^ nat (- u)"
    by (simp add: pu)
  also have "\<dots> \<le> of_int c * 2 ^ nat (- u)"
    using assms(1) by simp
  also have "\<dots> = of_int (c * 2 ^ nat (- u))"
    by simp
  finally have "round_half_even (x / pow2 u) \<le> c * 2 ^ nat (- u)"
    by (rule round_half_even_le)
  then have "(of_int (round_half_even (x / pow2 u)) :: rat) \<le> of_int (c * 2 ^ nat (- u))"
    by (simp only: of_int_le_iff)
  then have "of_int (round_half_even (x / pow2 u)) * pow2 u \<le> of_int c"
    by (simp add: pu field_simps)
  then show ?thesis
    using False by (simp add: round_double_def u_def Let_def)
qed

lemma not_overflows:
  "\<bar>y\<bar> \<le> of_int c \<Longrightarrow> c < 2 ^ 53 \<Longrightarrow> \<not> overflows y"
proof -
  assume a: "\<bar>y\<bar> \<le> of_int c" and c: "c < 2 ^ 53"
  have "(of_int c :: rat) < of_int (2 ^ 53)"
    using c by (simp only: of_int_less_iff)
  then have "\<bar>y\<bar> < pow2 53" using a by (simp add: pow2_nat)
  also have "pow2 53 \<le> pow2 1024" by (rule pow2_mono) simp
  finally show ?thesis by (simp add: overflows_def)
qed


text \<open>Both roundings are to a nearest value, with ties to the even one.\<close>

lemma round_half_even_nearest: "\<bar>of_int (round_half_even x) - x\<bar> \<le> 1 / 2"
proof -
  have "of_int \<lfloor>x\<rfloor> \<le> x" and "x < of_int \<lfloor>x\<rfloor> + 1"
    by linarith+
  then show ?thesis
    by (auto simp: round_half_even_def Let_def abs_le_iff)
qed

lemma round_half_even_tie:
  "round_half_even (of_int n + 1 / 2) = (if even n then n else n + 1)"
proof -
  have "\<lfloor>(of_int n :: rat) + 1 / 2\<rfloor> = n"
    by (rule floor_unique) simp_all
  then show ?thesis
    by (simp add: round_half_even_def Let_def)
qed

lemma round_double_error:
  "\<bar>round_double x - x\<bar> \<le> pow2 (max (ilog2 \<bar>x\<bar> - 52) (- 1074)) / 2"
proof (cases "x = 0")
  case True
  then show ?thesis
    using pow2_pos [of "max (ilog2 \<bar>x\<bar> - 52) (- 1074)"] by (simp add: round_double_def)
next
  case False
  define u where "u = max (ilog2 \<bar>x\<bar> - 52) (- 1074)"
  define m where "m = round_half_even (x / pow2 u)"
  have pu: "0 < pow2 u" by (rule pow2_pos)
  have "round_double x - x = (of_int m - x / pow2 u) * pow2 u"
    using False pu by (simp add: round_double_def u_def m_def Let_def algebra_simps)
  then have "\<bar>round_double x - x\<bar> = \<bar>of_int m - x / pow2 u\<bar> * pow2 u"
    using pu by (simp add: abs_mult)
  also have "\<dots> \<le> 1 / 2 * pow2 u"
    using round_half_even_nearest [of "x / pow2 u"] pu
    unfolding m_def by (intro mult_right_mono) simp_all
  finally show ?thesis by (simp add: u_def)
qed

lemma round_half_even_numeral [simp]: "round_half_even (numeral n) = numeral n"
  using round_half_even_of_int [of "numeral n"] by simp

lemma round_half_even_0 [simp]: "round_half_even 0 = 0"
  using round_half_even_of_int [of 0] by simp

lemma to_float_exact:
  assumes "x = of_int m * pow2 e" and "\<bar>m\<bar> < 2 ^ 53" and "- 1074 \<le> e" and "e \<le> 0"
  shows "to_float x = Finite x"
proof -
  have r: "round_double x = x"
    using assms(1-3) by (rule round_double_exact)
  have "pow2 e \<le> pow2 0" using assms(4) by (rule pow2_mono)
  then have "\<bar>x\<bar> \<le> of_int \<bar>m\<bar>"
    using pow2_pos [of e] by (simp add: assms(1) abs_mult mult_left_le)
  then have "\<not> overflows x"
    using assms(2) by (rule not_overflows)
  with r show ?thesis by (simp add: to_float_def)
qed

lemma int_to_float_small:
  "\<bar>m\<bar> < 2 ^ 53 \<Longrightarrow> int_to_float m = Inr (Finite (of_int m))"
  using not_overflows [of "of_int m" "\<bar>m\<bar>"]
  by (simp add: int_to_float_def round_double_of_int)

lemma round_half_even_eqI:
  assumes "\<bar>x - of_int m\<bar> < 1 / 2"
  shows "round_half_even x = m"
proof -
  have lo: "of_int \<lfloor>x\<rfloor> \<le> x" and hi: "x < of_int \<lfloor>x\<rfloor> + 1"
    by linarith+
  from assms have b: "of_int m - 1 / 2 < x" "x < of_int m + 1 / 2"
    by linarith+
  have "(of_int \<lfloor>x\<rfloor> :: rat) < of_int (m + 1)"
    using lo b(2) by simp linarith
  then have 1: "\<lfloor>x\<rfloor> < m + 1" by (simp only: of_int_less_iff)
  have "(of_int (m - 2) :: rat) < of_int \<lfloor>x\<rfloor>"
    using hi b(1) by simp
  then have 2: "m - 2 < \<lfloor>x\<rfloor>" by (simp only: of_int_less_iff)
  from 1 2 consider "\<lfloor>x\<rfloor> = m" | "\<lfloor>x\<rfloor> = m - 1" by linarith
  then show ?thesis
  proof cases
    case 1
    with b show ?thesis by (simp add: round_half_even_def Let_def)
  next
    case 2
    with b show ?thesis by (simp add: round_half_even_def Let_def)
  qed
qed

lemma int_truediv_eqI:
  "b \<noteq> 0 \<Longrightarrow> round_double (of_int a / of_int b) = y \<Longrightarrow> \<not> overflows y \<Longrightarrow>
   int_truediv a b = Inr (Finite y)"
  by (simp add: int_truediv_def)

lemma to_float_eqI:
  "round_double x = y \<Longrightarrow> \<not> overflows y \<Longrightarrow> to_float x = Finite y"
  by (simp add: to_float_def)

lemma round_double_evalI:
  assumes "pow2 k \<le> \<bar>x\<bar>" and "\<bar>x\<bar> < pow2 (k + 1)"
    and "u = max (k - 52) (- 1074)"
    and "\<bar>x / pow2 u - of_int m\<bar> < 1 / 2"
    and "y = of_int m * pow2 u"
  shows "round_double x = y"
  unfolding assms(5)
  using assms(1-3) round_half_even_eqI [OF assms(4)] by (rule round_double_eqI)


subsection \<open>The loop over the results\<close>

lemma count_result_skip:
  "\<not> is_model r \<Longrightarrow> count_result c r = Inr c' \<Longrightarrow> c' = c"
  by (cases c; cases r)
     (auto simp: is_model_def dict_get_def startswith_def
           split: sum.splits bool.splits jvalue.splits option.splits)

lemma count_result_model:
  assumes "is_model r" and "count_result (t, s, f, ts) r = Inr c'"
  shows "c' = (t + 1,
               if is_success r then s + 1 else s,
               if is_success r then f else f + 1,
               case timing r of Some x \<Rightarrow> ts @ [x] | None \<Rightarrow> ts)"
  using assms
  by (cases r)
     (auto simp: is_model_def is_success_def timing_def dict_get_def startswith_def
           split: sum.splits bool.splits jvalue.splits option.splits)

lemma count_results_tally:
  "count_results (t, s, f, ts) rs = Inr (t', s', f', ts') \<Longrightarrow>
     t' = t + int (length (filter is_model rs)) \<and>
     s' = s + int (length (filter (\<lambda>r. is_model r \<and> is_success r) rs)) \<and>
     f' = f + int (length (filter (\<lambda>r. is_model r \<and> \<not> is_success r) rs)) \<and>
     ts' = ts @ timing_sample rs"
proof (induction rs arbitrary: t s f ts)
  case Nil
  then show ?case by (simp add: timing_sample_def List.map_filter_simps)
next
  case (Cons r rs)
  from Cons.prems obtain c where step: "count_result (t, s, f, ts) r = Inr c"
    and rest: "count_results c rs = Inr (t', s', f', ts')"
    by (auto split: sum.splits)
  show ?case
  proof (cases "is_model r")
    case False
    have "c = (t, s, f, ts)" by (rule count_result_skip [OF False step])
    with rest Cons.IH False show ?thesis
      by (simp add: timing_sample_def)
  next
    case True
    define s1 where "s1 = (if is_success r then s + 1 else s)"
    define f1 where "f1 = (if is_success r then f else f + 1)"
    define ts1 where "ts1 = (case timing r of Some x \<Rightarrow> ts @ [x] | None \<Rightarrow> ts)"
    have c: "c = (t + 1, s1, f1, ts1)"
      using count_result_model [OF True step] by (simp add: s1_def f1_def ts1_def)
    have ih: "t' = t + 1 + int (length (filter is_model rs)) \<and>
       s' = s1 + int (length (filter (\<lambda>r. is_model r \<and> is_success r) rs)) \<and>
       f' = f1 + int (length (filter (\<lambda>r. is_model r \<and> \<not> is_success r) rs)) \<and>
       ts' = ts1 @ timing_sample rs"
      using rest unfolding c by (rule Cons.IH)
    have sample: "ts1 @ timing_sample rs = ts @ timing_sample (r # rs)"
      using True by (cases "timing r") (simp_all add: ts1_def timing_sample_def List.map_filter_simps)
    show ?thesis
      using ih True unfolding sample by (simp add: s1_def f1_def)
  qed
qed

lemma count_results_filter:
  "count_results c rs = Inr c' \<Longrightarrow> count_results c (filter is_model rs) = Inr c'"
proof (induction rs arbitrary: c)
  case Nil
  then show ?case by simp
next
  case (Cons r rs)
  from Cons.prems obtain c1 where step: "count_result c r = Inr c1"
    and rest: "count_results c1 rs = Inr c'"
    by (auto split: sum.splits)
  show ?case
  proof (cases "is_model r")
    case False
    have "c1 = c" by (rule count_result_skip [OF False step])
    with rest Cons.IH False show ?thesis by simp
  next
    case True
    with step rest Cons.IH show ?thesis by simp
  qed
qed

lemma count_results_append:
  "count_results c (xs @ ys) =
     (case count_results c xs of Inl e \<Rightarrow> Inl e | Inr c' \<Rightarrow> count_results c' ys)"
  by (induction xs arbitrary: c) (auto split: sum.splits)

text \<open>What a returned summary says about the document it was computed from.\<close>

lemma summarise_InrD:
  assumes "summarise w fp data = Inr s"
  obtains d md items t sc f ts rate avg tt g where
    "data = JDict d"
    "dict_get d ''metadata'' (JDict []) = JDict md"
    "py_iter (dict_get d ''results'' (JList [])) = Inr items"
    "count_results (0, 0, 0, []) items = Inr (t, sc, f, ts)"
    "total_models s = t" "successful_models s = sc" "failed_models s = f"
    "success_rate_of sc t = Inr rate" "py_round rate 2 = Inr (success_rate s)"
    "avg_of ts = Inr avg" "py_round avg 3 = Inr (avg_execution_time s)"
    "py_sum ts = Inr tt" "py_round tt 3 = Inr (total_execution_time s)"
    "dict_get md ''generated_at'' (JStr ''unknown'') = g"
    "run_date_of (fromisoformat w) g = Inr (run_date s)"
    "run_timestamp s = g" "file_path s = fp"
    "dbt_version s = dict_get md ''dbt_version'' (JStr ''unknown'')"
    "invocation_id s = dict_get md ''invocation_id'' (JStr ''unknown'')"
proof -
  from assms obtain d where d: "data = JDict d"
    by (cases data) (simp_all add: summarise_def bind_err_def)
  from assms d obtain md where md: "dict_get d ''metadata'' (JDict []) = JDict md"
    by (cases "dict_get d ''metadata'' (JDict [])")
       (auto simp: summarise_def bind_err_def split: sum.splits prod.splits)
  from assms show ?thesis
    unfolding d summarise_def bind_err_def
    by (auto simp: md split: sum.splits prod.splits intro!: that [OF d md])
qed

subsection \<open>The figures of the example world\<close>

lemma eval_two_thirds: "int_truediv 2 3 = Inr (Finite (6004799503160661 / 9007199254740992))"
proof (rule int_truediv_eqI)
  show "round_double (of_int 2 / of_int 3) = 6004799503160661 / 9007199254740992"
    by (rule round_double_evalI [where k = "- 1" and m = 6004799503160661 and u = "- 53"])
       (simp_all add: pow2_def)
  show "\<not> overflows (6004799503160661 / 9007199254740992)"
    by (rule not_overflows [where c = 1]) simp_all
qed simp

lemma eval_times100:
  "float_mul_int (Finite (6004799503160661 / 9007199254740992)) 100 = Inr (Finite (2345624805922133 / 35184372088832))"
proof -
  have "to_float (6004799503160661 / 9007199254740992 * 100) = Finite (2345624805922133 / 35184372088832)"
  proof (rule to_float_eqI)
    show "round_double (6004799503160661 / 9007199254740992 * 100) = 2345624805922133 / 35184372088832"
      by (rule round_double_evalI [where k = 6 and m = 4691249611844266 and u = "- 46"])
         (simp_all add: pow2_def)
    show "\<not> overflows (2345624805922133 / 35184372088832)"
      by (rule not_overflows [where c = 100]) simp_all
  qed
  then show ?thesis
    by (simp add: float_mul_int_def int_to_float_small)
qed

lemma eval_success_rate: "success_rate_of 2 3 = Inr (PFloat (Finite (2345624805922133 / 35184372088832)))"
  by (simp add: success_rate_of_def eval_two_thirds eval_times100)

lemma py_round_float_eqI:
  "round_half_even (a * 10 ^ n) = m \<Longrightarrow> round_double (of_int m / 10 ^ n) = y \<Longrightarrow>
   \<not> overflows y \<Longrightarrow> py_round (PFloat (Finite a)) n = Inr (PFloat (Finite y))"
  by (simp add: round_decimal_def)

lemma eval_round_rate:
  "py_round (PFloat (Finite (2345624805922133 / 35184372088832))) 2 =
     Inr (PFloat (Finite (4691484174324859 / 70368744177664)))"
proof (rule py_round_float_eqI)
  show "round_half_even (2345624805922133 / 35184372088832 * 10 ^ 2) = 6667"
    by (rule round_half_even_eqI) simp
  show "round_double (of_int 6667 / 10 ^ 2) = 4691484174324859 / 70368744177664"
    by (rule round_double_evalI [where k = 6 and m = 4691484174324859 and u = "- 46"])
       (simp_all add: pow2_def)
  show "\<not> overflows (4691484174324859 / 70368744177664)"
    by (rule not_overflows [where c = 100]) simp_all
qed

lemma to_float_int: "\<bar>m\<bar> < 9007199254740992 \<Longrightarrow> to_float (of_int m) = Finite (of_int m)"
  by (rule to_float_exact [where m = m and e = 0]) simp_all

lemma eval_sum_floats: "py_sum [PFloat (Finite 1), PFloat (Finite 2)] = Inr (PFloat (Finite 3))"
  using to_float_int [of 1] to_float_int [of 3] int_to_float_small [of 0]
  by (simp add: py_sum_def)

lemma eval_sum_mixed: "py_sum [PFloat (Finite 1), PInt 2] = Inr (PFloat (Finite 3))"
  using to_float_int [of 1] to_float_int [of 3] int_to_float_small [of 0] int_to_float_small [of 2]
  by (simp add: py_sum_def)

lemma eval_half: "to_float (3 / 2) = Finite (3 / 2)"
  by (rule to_float_exact [where m = 3 and e = "- 1"]) (simp_all add: pow2_def)

lemma eval_avg_floats: "avg_of [PFloat (Finite 1), PFloat (Finite 2)] = Inr (PFloat (Finite (3 / 2)))"
  using int_to_float_small [of 2] by (simp add: avg_of_def eval_sum_floats eval_half)

lemma eval_avg_mixed: "avg_of [PFloat (Finite 1), PInt 2] = Inr (PFloat (Finite (3 / 2)))"
  using int_to_float_small [of 2] by (simp add: avg_of_def eval_sum_mixed eval_half)

lemma eval_round_avg: "py_round (PFloat (Finite (3 / 2))) 3 = Inr (PFloat (Finite (3 / 2)))"
proof (rule py_round_float_eqI)
  show "round_half_even (3 / 2 * 10 ^ 3) = 1500"
    by (rule round_half_even_eqI) simp
  show "round_double (of_int 1500 / 10 ^ 3) = 3 / 2"
    using round_double_exact [where x = "3 / 2" and m = 3 and e = "- 1"]
    by (simp add: pow2_def)
  show "\<not> overflows (3 / 2)"
    by (rule not_overflows [where c = 2]) simp_all
qed

lemma eval_round_total: "py_round (PFloat (Finite 3)) 3 = Inr (PFloat (Finite 3))"
proof (rule py_round_float_eqI)
  show "round_half_even (3 * 10 ^ 3) = 3000"
    by (rule round_half_even_eqI) simp
  show "round_double (of_int 3000 / 10 ^ 3) = 3"
    using round_double_of_int [of 3] by simp
  show "\<not> overflows 3"
    by (rule not_overflows [where c = 3]) simp_all
qed

lemma eval_run_date:
  "run_date_of iso_parser (JStr ''2024-01-15T10:30:00Z'') = Inr ''2024-01-15''"
  by (simp add: run_date_of_def replace_char_def iso_parser_def parse_date_def parse_clock_def
        parse_offset_def number_def digit_value_def days_in_month_def leap_year_def
        date_isoformat_def zfill_def decimal.simps digit_def Let_def)

lemma count_three_models:
  "count_results (0, 0, 0, [])
     [model_record ''model.shop.orders'' ''success'' (JFloat (Finite 1)),
      model_record ''model.shop.customers'' ''success'' (JFloat (Finite 2)),
      model_record ''model.shop.payments'' ''error'' (JFloat (Finite 0))] =
   Inr (3, 2, 1, [PFloat (Finite 1), PFloat (Finite 2)])"
  by (simp add: model_record_def dict_get_def startswith_def)

lemma count_mixed:
  "count_results (0, 0, 0, []) mixed_results = Inr (3, 2, 1, [PFloat (Finite 1), PInt 2])"
  by (simp add: mixed_results_def model_record_def dict_get_def startswith_def)

lemma summarise_eqI:
  assumes "dict_get d ''metadata'' (JDict []) = JDict md"
    and "py_iter (dict_get d ''results'' (JList [])) = Inr items"
    and "count_results (0, 0, 0, []) items = Inr (t, sc, f, ts)"
    and "bind_err (success_rate_of sc t) (\<lambda>r. py_round r 2) = Inr rate2"
    and "bind_err (avg_of ts) (\<lambda>a. py_round a 3) = Inr avg3"
    and "bind_err (py_sum ts) (\<lambda>x. py_round x 3) = Inr tt3"
    and "run_date_of (fromisoformat w) (dict_get md ''generated_at'' (JStr ''unknown'')) = Inr rd"
  shows "summarise w fp (JDict d) =
     Inr \<lparr> file_path = fp, run_date = rd,
           run_timestamp = dict_get md ''generated_at'' (JStr ''unknown''),
           dbt_version = dict_get md ''dbt_version'' (JStr ''unknown''),
           invocation_id = dict_get md ''invocation_id'' (JStr ''unknown''),
           total_models = t, successful_models = sc, failed_models = f,
           success_rate = rate2, avg_execution_time = avg3, total_execution_time = tt3 \<rparr>"
  using assms by (auto simp: summarise_def bind_err_def split: sum.splits)

lemma summarise_three_models:
  "summarise demo ''logs/run_results.json'' three_models_doc = Inr three_models_stats"
proof -
  have "summarise demo ''logs/run_results.json'' three_models_doc = Inr
     \<lparr> file_path = ''logs/run_results.json'', run_date = ''2024-01-15'',
       run_timestamp = dict_get [(''generated_at'', JStr ''2024-01-15T10:30:00Z''),
                    (''dbt_version'', JStr ''1.7.4'')] ''generated_at'' (JStr ''unknown''),
       dbt_version = dict_get [(''generated_at'', JStr ''2024-01-15T10:30:00Z''),
                    (''dbt_version'', JStr ''1.7.4'')] ''dbt_version'' (JStr ''unknown''),
       invocation_id = dict_get [(''generated_at'', JStr ''2024-01-15T10:30:00Z''),
                    (''dbt_version'', JStr ''1.7.4'')] ''invocation_id'' (JStr ''unknown''),
       total_models = 3, successful_models = 2, failed_models = 1,
       success_rate = PFloat (Finite (4691484174324859 / 70368744177664)),
       avg_execution_time = PFloat (Finite (3 / 2)),
       total_execution_time = PFloat (Finite 3) \<rparr>"
    unfolding three_models_doc_def
  proof (rule summarise_eqI)
    show "count_results (0, 0, 0, [])
       [model_record ''model.shop.orders'' ''success'' (JFloat (Finite 1)),
        model_record ''model.shop.customers'' ''success'' (JFloat (Finite 2)),
        model_record ''model.shop.payments'' ''error'' (JFloat (Finite 0))] =
       Inr (3, 2, 1, [PFloat (Finite 1), PFloat (Finite 2)])"
      by (rule count_three_models)
    show "run_date_of (fromisoformat demo)
       (dict_get [(''generated_at'', JStr ''2024-01-15T10:30:00Z''),
                  (''dbt_version'', JStr ''1.7.4'')] ''generated_at'' (JStr ''unknown'')) =
       Inr ''2024-01-15''"
      using eval_run_date by (simp add: dict_get_def demo_def)
  qed (simp_all add: dict_get_def bind_err_def eval_success_rate eval_round_rate
        eval_avg_floats eval_sum_floats eval_round_avg eval_round_total del: py_round.simps)
  then show ?thesis
    by (simp add: three_models_stats_def dict_get_def)
qed

lemma summarise_mixed:
  "summarise demo ''logs/sub/run_results.json'' mixed_doc = Inr mixed_stats"
proof -
  have "summarise demo ''logs/sub/run_results.json'' mixed_doc = Inr
     \<lparr> file_path = ''logs/sub/run_results.json'', run_date = ''unknown'',
       run_timestamp = dict_get [] ''generated_at'' (JStr ''unknown''),
       dbt_version = dict_get [] ''dbt_version'' (JStr ''unknown''),
       invocation_id = dict_get [] ''invocation_id'' (JStr ''unknown''),
       total_models = 3, successful_models = 2, failed_models = 1,
       success_rate = PFloat (Finite (4691484174324859 / 70368744177664)),
       avg_execution_time = PFloat (Finite (3 / 2)),
       total_execution_time = PFloat (Finite 3) \<rparr>"
    unfolding mixed_doc_def
  proof (rule summarise_eqI)
    show "count_results (0, 0, 0, []) mixed_results = Inr (3, 2, 1, [PFloat (Finite 1), PInt 2])"
      by (rule count_mixed)
  qed (simp_all add: dict_get_def bind_err_def eval_success_rate eval_round_rate
        eval_avg_mixed eval_sum_mixed eval_round_avg eval_round_total run_date_of_def
        del: py_round.simps)
  then show ?thesis
    by (simp add: mixed_stats_def dict_get_def)
qed

lemma summarise_empty:
  "summarise w fp (JDict []) = Inr (empty_stats fp)"
  by (simp add: summarise_def bind_err_def dict_get_def success_rate_of_def avg_of_def
        py_sum_def run_date_of_def empty_stats_def)

lemma demo_three_models:
  "count_models demo ''logs/run_results.json'' = ([], Inr (Some three_models_stats))"
  using summarise_three_models
  by (simp add: count_models_def demo_def demo_load_def)

lemma demo_mixed:
  "count_models demo ''logs/sub/run_results.json'' = ([], Inr (Some mixed_stats))"
  using summarise_mixed
  by (simp add: count_models_def demo_def demo_load_def)

lemma count_models_InrD:
  assumes "count_models w fp = (out, Inr (Some s))"
  obtains data where "json_load w fp = Loaded data" and "summarise w fp data = Inr s"
  using assms
  by (auto simp: count_models_def split: load_result.splits sum.splits)


lemma filter_model_split:
  "length (filter is_model rs) =
     length (filter (\<lambda>r. is_model r \<and> is_success r) rs) +
     length (filter (\<lambda>r. is_model r \<and> \<not> is_success r) rs)"
  by (induction rs) auto

subsection \<open>Summaries of loaded reports\<close>

lemma summarise_world:
  "fromisoformat w' = fromisoformat w \<Longrightarrow> summarise w' fp data = summarise w fp data"
  by (simp add: summarise_def)

lemma summarise_cong:
  assumes "dict_get d' ''metadata'' (JDict []) = dict_get d ''metadata'' (JDict [])"
    and "py_iter (dict_get d ''results'' (JList [])) = Inr rs"
    and "py_iter (dict_get d' ''results'' (JList [])) = Inr rs'"
    and "count_results (0, 0, 0, []) rs' = count_results (0, 0, 0, []) rs"
  shows "summarise w fp (JDict d') = summarise w fp (JDict d)"
  by (simp add: summarise_def bind_err_def assms)

lemma count_models_put_file:
  "count_models (put_file w fp data) fp =
     ([], case summarise w fp data of Inl e \<Rightarrow> Inl e | Inr s \<Rightarrow> Inr (Some s))"
proof -
  have "summarise (put_file w fp data) fp data = summarise w fp data"
    by (rule summarise_world) (simp add: put_file_def)
  moreover have "json_load (put_file w fp data) fp = Loaded data"
    by (simp add: put_file_def)
  ultimately show ?thesis
    by (simp add: count_models_def)
qed

lemma count_models_loaded:
  "json_load w fp = Loaded data \<Longrightarrow>
   count_models w fp =
     ([], case summarise w fp data of Inl e \<Rightarrow> Inl e | Inr s \<Rightarrow> Inr (Some s))"
  by (simp add: count_models_def)

lemma with_results_get [simp]:
  "dict_get ((''results'', JList rs) # d) ''results'' dflt = JList rs"
  "dict_get ((''results'', JList rs) # d) ''metadata'' dflt = dict_get d ''metadata'' dflt"
  by (simp_all add: dict_get_def)


text \<open>The summary and the counters of the loop, for a loaded report.\<close>

lemma returned_counters:
  assumes load: "json_load w fp = Loaded (JDict d)"
    and items: "py_iter (dict_get d ''results'' (JList [])) = Inr rs"
    and ret: "count_models w fp = (out, Inr (Some s))"
  obtains ts where
    "summarise w fp (JDict d) = Inr s" and "out = []"
    "count_results (0, 0, 0, []) rs =
       Inr (total_models s, successful_models s, failed_models s, ts)"
    "bind_err (success_rate_of (successful_models s) (total_models s)) (\<lambda>r. py_round r 2) =
       Inr (success_rate s)"
    "bind_err (avg_of ts) (\<lambda>a. py_round a 3) = Inr (avg_execution_time s)"
    "bind_err (py_sum ts) (\<lambda>x. py_round x 3) = Inr (total_execution_time s)"
proof -
  from ret load have sm: "summarise w fp (JDict d) = Inr s" and out: "out = []"
    by (auto simp: count_models_loaded split: sum.splits)
  from sm show ?thesis
  proof (rule summarise_InrD)
    fix d' items t sc f ts rate avg tt
    assume "JDict d = JDict d'"
      and "py_iter (dict_get d' ''results'' (JList [])) = Inr items"
      and "count_results (0, 0, 0, []) items = Inr (t, sc, f, ts)"
      and "total_models s = t" "successful_models s = sc" "failed_models s = f"
      and "success_rate_of sc t = Inr rate" "py_round rate 2 = Inr (success_rate s)"
      and "avg_of ts = Inr avg" "py_round avg 3 = Inr (avg_execution_time s)"
      and "py_sum ts = Inr tt" "py_round tt 3 = Inr (total_execution_time s)"
    with items sm out show ?thesis
      by (intro that [of ts]) (auto simp: bind_err_def)
  qed
qed

lemma count_result_no_unique_id:
  "map_of r ''unique_id'' = None \<Longrightarrow> count_result c (JDict r) = Inr c"
  by (cases c) (simp add: dict_get_def startswith_def)

subsection \<open>No division by zero\<close>

lemma round_double_int_pos:
  assumes "1 \<le> n"
  shows "0 < round_double (of_int n)"
proof -
  define x :: rat where "x = of_int n"
  have x1: "1 \<le> x" using assms by (simp add: x_def)
  then have pos: "0 < x" by simp
  define u where "u = max (ilog2 \<bar>x\<bar> - 52) (- 1074)"
  have "pow2 0 < pow2 (ilog2 x + 1)"
    using ilog2_bounds(2) [OF pos] x1 by simp
  then have "0 < ilog2 x + 1" by (rule pow2_less_cancel)
  then have "u \<le> ilog2 x" using pos by (simp add: u_def)
  then have "pow2 u \<le> pow2 (ilog2 x)" by (rule pow2_mono)
  with ilog2_bounds(1) [OF pos] have "pow2 u \<le> x" by simp
  then have "of_int 1 \<le> x / pow2 u"
    using pow2_pos [of u] by (simp add: le_divide_eq)
  then have "1 \<le> round_half_even (x / pow2 u)"
    by (rule round_half_even_ge)
  then have "(0::rat) < of_int (round_half_even (x / pow2 u))"
    by simp
  then have "0 < of_int (round_half_even (x / pow2 u)) * pow2 u"
    using pow2_pos [of u] by simp
  then show ?thesis
    using pos by (simp add: round_double_def u_def Let_def x_def [symmetric])
qed

lemma bind_err_neq:
  "m \<noteq> Inl e \<Longrightarrow> (\<And>x. m = Inr x \<Longrightarrow> f x \<noteq> Inl e) \<Longrightarrow> bind_err m f \<noteq> Inl e"
  by (cases m) (simp_all add: bind_err_def)

lemma int_truediv_no_zde: "b \<noteq> 0 \<Longrightarrow> int_truediv a b \<noteq> Inl ZeroDivisionError"
  by (simp add: int_truediv_def Let_def)

lemma int_to_float_no_zde: "int_to_float a \<noteq> Inl ZeroDivisionError"
  by (simp add: int_to_float_def Let_def)

lemma py_add_no_zde: "py_add a b \<noteq> Inl ZeroDivisionError"
  using int_to_float_no_zde
  by (cases a; cases b) (auto split: sum.splits)

lemma sum_from_no_zde: "sum_from acc xs \<noteq> Inl ZeroDivisionError"
proof (induction xs arbitrary: acc)
  case Nil
  show ?case by simp
next
  case (Cons x xs)
  then show ?case
    using py_add_no_zde [of acc x] by (auto split: sum.splits)
qed

lemma py_sum_no_zde: "py_sum xs \<noteq> Inl ZeroDivisionError"
  by (simp add: py_sum_def sum_from_no_zde)

lemma py_truediv_int_no_zde:
  assumes "1 \<le> n"
  shows "py_truediv_int x n \<noteq> Inl ZeroDivisionError"
proof (cases x)
  case (PInt a)
  with assms show ?thesis by (simp add: int_truediv_no_zde)
next
  case (PFloat f)
  have "round_double (of_int n) \<noteq> 0"
    using round_double_int_pos [OF assms] by simp
  then show ?thesis
    by (cases f) (simp_all add: PFloat int_to_float_def Let_def)
qed

lemma avg_of_no_zde: "avg_of ts \<noteq> Inl ZeroDivisionError"
proof (cases "ts = []")
  case True
  then show ?thesis by (simp add: avg_of_def)
next
  case False
  then have "1 \<le> int (length ts)" by (cases ts) simp_all
  then have "py_truediv_int s (int (length ts)) \<noteq> Inl ZeroDivisionError" for s
    by (rule py_truediv_int_no_zde)
  with py_sum_no_zde [of ts] show ?thesis
    by (auto simp: avg_of_def split: sum.splits)
qed

lemma success_rate_of_no_zde: "success_rate_of sc t \<noteq> Inl ZeroDivisionError"
  using int_truediv_no_zde [of t sc] int_to_float_no_zde [of 100]
  by (auto simp: success_rate_of_def float_mul_int_def split: sum.splits)

lemma py_round_no_zde: "py_round x n \<noteq> Inl ZeroDivisionError"
proof (cases x)
  case (PInt i)
  then show ?thesis by simp
next
  case (PFloat f)
  then show ?thesis by (cases f) (simp_all add: Let_def)
qed

lemma py_get_no_zde: "py_get x k dflt \<noteq> Inl ZeroDivisionError"
  by (cases x) simp_all

lemma py_iter_no_zde: "py_iter x \<noteq> Inl ZeroDivisionError"
  by (cases x) simp_all

lemma as_number_no_zde: "as_number x \<noteq> Inl ZeroDivisionError"
  by (cases x) simp_all

lemma py_startswith_no_zde: "py_startswith x p \<noteq> Inl ZeroDivisionError"
  by (cases x) simp_all

lemma count_result_no_zde: "count_result c r \<noteq> Inl ZeroDivisionError"
  using py_get_no_zde py_startswith_no_zde as_number_no_zde
  by (cases c) (auto split: sum.splits bool.splits)

lemma count_results_no_zde: "count_results c rs \<noteq> Inl ZeroDivisionError"
proof (induction rs arbitrary: c)
  case Nil
  show ?case by simp
next
  case (Cons r rs)
  then show ?case
    using count_result_no_zde [of c r] by (auto split: sum.splits)
qed

lemma run_date_of_no_zde: "run_date_of parse g \<noteq> Inl ZeroDivisionError"
  by (cases g) (auto simp: run_date_of_def split: option.splits)

lemma bind_err_InlE:
  assumes "bind_err m f = Inl e"
  obtains "m = Inl e" | x where "m = Inr x" and "f x = Inl e"
  using assms by (cases m) (simp_all add: bind_err_def)

lemma summarise_no_zde: "summarise w fp data \<noteq> Inl ZeroDivisionError"
proof
  assume "summarise w fp data = Inl ZeroDivisionError"
  then show False
    unfolding summarise_def
    by (auto elim!: bind_err_InlE
          simp: py_get_no_zde py_iter_no_zde count_results_no_zde success_rate_of_no_zde
            avg_of_no_zde py_sum_no_zde run_date_of_no_zde py_round_no_zde)
qed

lemma count_models_no_zde:
  "json_load w fp = Loaded data \<Longrightarrow> snd (count_models w fp) \<noteq> Inl ZeroDivisionError"
  using summarise_no_zde [of w fp data]
  by (auto simp: count_models_def split: sum.splits)

subsection \<open>The success rate\<close>

lemma success_rate_of_value:
  assumes "0 \<le> sc" and "sc \<le> t" and "0 < t"
  defines "y \<equiv> round_double (round_double (of_int sc / of_int t) * 100)"
  shows "success_rate_of sc t = Inr (PFloat (Finite y))" and "0 \<le> y" and "y \<le> 100"
proof -
  define x :: rat where "x = of_int sc / of_int t"
  define q where "q = round_double x"
  have x0: "0 \<le> x" and x1: "x \<le> of_int 1"
    using assms(1-3) by (simp_all add: x_def)
  have q0: "0 \<le> q"
    unfolding q_def using x0 by (rule round_double_nonneg)
  have q1: "q \<le> of_int 1"
    unfolding q_def using x1 x0 by (rule round_double_le_int) simp
  have "\<bar>q\<bar> \<le> of_int 1" using q0 q1 by simp
  then have qo: "\<not> overflows q" by (rule not_overflows) simp
  have div: "int_truediv sc t = Inr (Finite q)"
    using assms(3) qo by (simp add: int_truediv_def q_def x_def)
  have y: "y = round_double (q * 100)"
    by (simp add: y_def q_def x_def)
  have m0: "0 \<le> q * 100" and m1: "q * 100 \<le> of_int 100"
    using q0 q1 by simp_all
  show y0: "0 \<le> y"
    unfolding y using m0 by (rule round_double_nonneg)
  have y1: "y \<le> of_int 100"
    unfolding y using m1 m0 by (rule round_double_le_int) simp
  then show "y \<le> 100" by simp
  have "\<bar>y\<bar> \<le> of_int 100" using y0 y1 by simp
  then have yo: "\<not> overflows y" by (rule not_overflows) simp
  have "float_mul_int (Finite q) 100 = Inr (Finite y)"
    using yo int_to_float_small [of 100] by (simp add: float_mul_int_def to_float_def y)
  with div assms(3) show "success_rate_of sc t = Inr (PFloat (Finite y))"
    by (simp add: success_rate_of_def)
qed

lemma round_decimal_2_range:
  assumes "0 \<le> y" and "y \<le> 100"
  shows "0 \<le> round_decimal 2 y" and "round_decimal 2 y \<le> 100"
    and "\<not> overflows (round_decimal 2 y)"
proof -
  define m where "m = round_half_even (y * 10 ^ 2)"
  have "of_int 0 \<le> y * 10 ^ 2" using assms(1) by simp
  then have m0: "0 \<le> m" unfolding m_def by (rule round_half_even_ge)
  have "y * 10 ^ 2 \<le> of_int 10000" using assms(2) by simp
  then have m1: "m \<le> 10000" unfolding m_def by (rule round_half_even_le)
  have z0: "(0::rat) \<le> of_int m / 10 ^ 2" using m0 by simp
  have "(of_int m :: rat) \<le> of_int 10000" using m1 by (simp only: of_int_le_iff)
  then have z1: "(of_int m :: rat) / 10 ^ 2 \<le> of_int 100" by simp
  have r: "round_decimal 2 y = round_double (of_int m / 10 ^ 2)"
    by (simp add: round_decimal_def m_def)
  show lo: "0 \<le> round_decimal 2 y"
    unfolding r using z0 by (rule round_double_nonneg)
  have hi: "round_decimal 2 y \<le> of_int 100"
    unfolding r using z1 z0 by (rule round_double_le_int) simp
  then show "round_decimal 2 y \<le> 100" by simp
  have "\<bar>round_decimal 2 y\<bar> \<le> of_int 100" using lo hi by simp
  then show "\<not> overflows (round_decimal 2 y)" by (rule not_overflows) simp
qed

lemma filter_conj_length_le:
  "length (filter (\<lambda>r. P r \<and> Q r) rs) \<le> length (filter P rs)"
  by (induction rs) auto

subsection \<open>The example reports\<close>

lemma demo_load_mixed:
  "json_load demo ''logs/sub/run_results.json'' = Loaded (JDict [(''results'', JList mixed_results)])"
  by (simp add: demo_def demo_load_def mixed_doc_def)

lemma demo_load_three_models:
  "json_load demo ''logs/run_results.json'' = Loaded three_models_doc"
  by (simp add: demo_def demo_load_def)

lemma mixed_items:
  "py_iter (dict_get [(''results'', JList mixed_results)] ''results'' (JList [])) = Inr mixed_results"
  by (simp add: dict_get_def)

lemma mixed_models:
  "filter is_model mixed_results =
     [model_record ''model.shop.orders'' ''success'' (JFloat (Finite 1)),
      model_record ''model.shop.customers'' ''success'' (JInt 2),
      JDict [(''unique_id'', JStr ''model.shop.payments'')]]"
  by (simp add: mixed_results_def model_record_def is_model_def)

subsection \<open>The loop over the files, discovery and main\<close>






lemma demo_logs_files:
  "fst (find_run_results_files demo ''logs'') =
     [''logs/run_results.json'', ''logs/run_results_old.json'', ''logs/sub/run_results.json'']"
  by (simp add: find_run_results_files_def demo_def demo_glob_def path_join_def
        startswith_def endswith_def suffix_to_prefix Let_def)









subsection \<open>The run date\<close>

lemma run_date_of_string:
  "run_date_of parse (JStr g) = Inr (string_run_date parse g)"
  by (simp add: run_date_of_def string_run_date_def split: option.splits)

lemma replace_char_no_match:
  "c \<notin> set s \<Longrightarrow> replace_char c new s = s"
  by (induction s) (auto simp: replace_char_def)

lemma replace_char_append:
  "replace_char c new (s @ t) = replace_char c new s @ replace_char c new t"
  by (simp add: replace_char_def)

lemma replace_trailing:
  "c \<notin> set s \<Longrightarrow> replace_char c new (s @ [c]) = s @ new"
  by (simp add: replace_char_append replace_char_no_match) (simp add: replace_char_def)

lemma summarise_with_generated_at:
  assumes sm: "summarise w fp (JDict d) = Inr s"
    and meta: "dict_get d ''metadata'' (JDict []) = JDict md"
  shows "summarise w fp (with_generated_at d md (JStr g)) =
     Inr (s\<lparr>run_date := string_run_date (fromisoformat w) g, run_timestamp := JStr g\<rparr>)"
proof -
  from sm obtain d' md' items t sc f ts rate avg tt where
    d: "JDict d = JDict d'"
    and md: "dict_get d' ''metadata'' (JDict []) = JDict md'"
    and it: "py_iter (dict_get d' ''results'' (JList [])) = Inr items"
    and c: "count_results (0, 0, 0, []) items = Inr (t, sc, f, ts)"
    and s: "total_models s = t" "successful_models s = sc" "failed_models s = f"
    and rate: "success_rate_of sc t = Inr rate" "py_round rate 2 = Inr (success_rate s)"
    and avg: "avg_of ts = Inr avg" "py_round avg 3 = Inr (avg_execution_time s)"
    and tt: "py_sum ts = Inr tt" "py_round tt 3 = Inr (total_execution_time s)"
    and fp: "file_path s = fp"
    and v: "dbt_version s = dict_get md' ''dbt_version'' (JStr ''unknown'')"
    and i: "invocation_id s = dict_get md' ''invocation_id'' (JStr ''unknown'')"
    by (rule summarise_InrD)
  from d md meta have [simp]: "d' = d" "md' = md" by simp_all
  let ?md = "(''generated_at'', JStr g) # md"
  let ?d = "(''metadata'', JDict ?md) # d"
  have "summarise w fp (JDict ?d) =
     Inr \<lparr> file_path = fp, run_date = string_run_date (fromisoformat w) g,
           run_timestamp = dict_get ?md ''generated_at'' (JStr ''unknown''),
           dbt_version = dict_get ?md ''dbt_version'' (JStr ''unknown''),
           invocation_id = dict_get ?md ''invocation_id'' (JStr ''unknown''),
           total_models = t, successful_models = sc, failed_models = f,
           success_rate = success_rate s, avg_execution_time = avg_execution_time s,
           total_execution_time = total_execution_time s \<rparr>"
  proof (rule summarise_eqI)
    show "dict_get ?d ''metadata'' (JDict []) = JDict ?md"
      by (simp add: dict_get_def)
    show "py_iter (dict_get ?d ''results'' (JList [])) = Inr items"
      using it by (simp add: dict_get_def)
    show "count_results (0, 0, 0, []) items = Inr (t, sc, f, ts)"
      by (rule c)
    show "run_date_of (fromisoformat w) (dict_get ?md ''generated_at'' (JStr ''unknown'')) =
        Inr (string_run_date (fromisoformat w) g)"
      by (simp add: dict_get_def run_date_of_string)
  qed (simp_all add: bind_err_def rate avg tt del: py_round.simps)
  also have "\<dots> =
      Inr (s\<lparr>run_date := string_run_date (fromisoformat w) g, run_timestamp := JStr g\<rparr>)"
    using s fp v i by (simp add: dict_get_def)
  finally show ?thesis
    by (simp add: with_generated_at_def)
qed

section \<open>The properties\<close>

text \<open>
  Claim C1. For every report file that is loaded, the summary that \<open>count_models\<close>
  returns satisfies \<open>total_models = successful_models + failed_models\<close>.
\<close>

theorem total_is_successful_plus_failed:
  assumes "count_models w fp = (out, Inr (Some s))"
  shows "total_models s = successful_models s + failed_models s"
proof -
  from assms obtain data where sm: "summarise w fp data = Inr s"
    by (rule count_models_InrD)
  from sm show ?thesis
  proof (rule summarise_InrD)
    fix items :: "jvalue list" and t sc f :: int and ts :: "pynum list"
    assume c: "count_results (0, 0, 0, []) items = Inr (t, sc, f, ts)"
      and s: "total_models s = t" "successful_models s = sc" "failed_models s = f"
    from count_results_tally [OF c] filter_model_split [of items] s
    show ?thesis by simp
  qed
qed

theorem total_is_successful_plus_failed_witness:
  "total_models three_models_stats =
     successful_models three_models_stats + failed_models three_models_stats \<and>
   total_models three_models_stats = 3"
  using total_is_successful_plus_failed [OF demo_three_models]
  by (simp add: three_models_stats_def)

text \<open>
  Claim C2. A record of the results list enters the tally exactly when its identifier
  is a string that starts with \<^verbatim>\<open>model.\<close>: the total is the number of such records,
  and deleting every other record from the report leaves the whole summary unchanged.
\<close>

theorem only_model_records_are_counted:
  assumes load: "json_load w fp = Loaded (JDict d)"
    and items: "py_iter (dict_get d ''results'' (JList [])) = Inr rs"
    and ret: "count_models w fp = (out, Inr (Some s))"
  shows "total_models s = int (length (filter is_model rs)) \<and>
         count_models (put_file w fp (with_results d (filter is_model rs))) fp =
           (out, Inr (Some s))"
proof -
  from load items ret obtain ts where
    sm: "summarise w fp (JDict d) = Inr s" and out: "out = []"
    and c: "count_results (0, 0, 0, []) rs =
       Inr (total_models s, successful_models s, failed_models s, ts)"
    by (rule returned_counters)
  have total: "total_models s = int (length (filter is_model rs))"
    using count_results_tally [OF c] by simp
  have "count_results (0, 0, 0, []) (filter is_model rs) = count_results (0, 0, 0, []) rs"
    using count_results_filter [OF c] c by simp
  then have "summarise w fp (with_results d (filter is_model rs)) = summarise w fp (JDict d)"
    unfolding with_results_def
    by (intro summarise_cong [where rs = rs and rs' = "filter is_model rs"])
       (simp_all add: items)
  with sm out total show ?thesis
    by (simp add: count_models_put_file)
qed

theorem only_model_records_are_counted_witness:
  "json_load demo ''logs/sub/run_results.json'' =
     Loaded (JDict [(''results'', JList mixed_results)]) \<and>
   count_models demo ''logs/sub/run_results.json'' = ([], Inr (Some mixed_stats)) \<and>
   length mixed_results = 6 \<and>
   total_models mixed_stats = 3 \<and>
   total_models mixed_stats = int (length (filter is_model mixed_results)) \<and>
   count_models
     (put_file demo ''logs/sub/run_results.json''
        (with_results [(''results'', JList mixed_results)] (filter is_model mixed_results)))
     ''logs/sub/run_results.json'' = ([], Inr (Some mixed_stats))"
  using only_model_records_are_counted [OF demo_load_mixed mixed_items demo_mixed]
    demo_load_mixed demo_mixed
  by (simp add: mixed_stats_def mixed_results_def)



text \<open>
  Claim C4. The timing sample holds the execution times of the qualifying records that
  are present and strictly greater than zero; \<open>avg_execution_time\<close> is the mean of the
  sample (0 when it is empty) and \<open>total_execution_time\<close> its sum, both rounded to 3
  decimals. For the report with three models (two successes, one failure, times 1.0, 2.0
  and 0) the figures are 3, 2, 1, 1.5 and 3.0.
\<close>

theorem timing_sample_and_figures:
  assumes load: "json_load w fp = Loaded (JDict d)"
    and items: "py_iter (dict_get d ''results'' (JList [])) = Inr rs"
    and ret: "count_models w fp = (out, Inr (Some s))"
  shows "bind_err (avg_of (timing_sample rs)) (\<lambda>a. py_round a 3) = Inr (avg_execution_time s) \<and>
         bind_err (py_sum (timing_sample rs)) (\<lambda>x. py_round x 3) = Inr (total_execution_time s) \<and>
         total_models s = int (length (filter is_model rs)) \<and>
         avg_of [] = Inr (PInt 0) \<and>
         (\<forall>r v. timing (JDict r) = Some v \<longleftrightarrow>
            (\<exists>j. map_of r ''execution_time'' = Some j \<and> as_number j = Inr v \<and> num_gt_zero v)) \<and>
         count_models demo ''logs/run_results.json'' = ([], Inr (Some three_models_stats)) \<and>
         total_models three_models_stats = 3 \<and>
         successful_models three_models_stats = 2 \<and>
         failed_models three_models_stats = 1 \<and>
         avg_execution_time three_models_stats = PFloat (Finite (3 / 2)) \<and>
         total_execution_time three_models_stats = PFloat (Finite 3)"
proof -
  from load items ret obtain ts where
    c: "count_results (0, 0, 0, []) rs =
       Inr (total_models s, successful_models s, failed_models s, ts)"
    and avg: "bind_err (avg_of ts) (\<lambda>a. py_round a 3) = Inr (avg_execution_time s)"
    and tt: "bind_err (py_sum ts) (\<lambda>x. py_round x 3) = Inr (total_execution_time s)"
    by (rule returned_counters)
  from count_results_tally [OF c] have ts: "ts = timing_sample rs"
    and total: "total_models s = int (length (filter is_model rs))"
    by simp_all
  have timing: "timing (JDict r) = Some v \<longleftrightarrow>
      (\<exists>j. map_of r ''execution_time'' = Some j \<and> as_number j = Inr v \<and> num_gt_zero v)" for r v
    by (auto simp: timing_def split: option.splits sum.splits)
  from avg tt total timing demo_three_models show ?thesis
    unfolding ts by (simp add: avg_of_def three_models_stats_def)
qed

theorem timing_sample_and_figures_witness:
  "timing_sample mixed_results = [PFloat (Finite 1), PInt 2] \<and>
   bind_err (avg_of [PFloat (Finite 1), PInt 2]) (\<lambda>a. py_round a 3) =
     Inr (avg_execution_time mixed_stats) \<and>
   bind_err (py_sum [PFloat (Finite 1), PInt 2]) (\<lambda>x. py_round x 3) =
     Inr (total_execution_time mixed_stats) \<and>
   avg_execution_time mixed_stats = PFloat (Finite (3 / 2)) \<and>
   total_execution_time mixed_stats = PFloat (Finite 3)"
proof -
  have ts: "timing_sample mixed_results = [PFloat (Finite 1), PInt 2]"
    by (simp add: timing_sample_def mixed_models model_record_def timing_def
          List.map_filter_simps)
  from timing_sample_and_figures [OF demo_load_mixed mixed_items demo_mixed]
  show ?thesis
    unfolding ts by (simp add: mixed_stats_def)
qed

text \<open>
  Claim C5. For a loaded report, \<open>success_rate\<close> is 0 when there is no model, and
  otherwise \<open>successful_models / total_models * 100\<close> (in binary64 arithmetic)
  rounded to 2 decimals; it lies between 0 and 100, and no division by zero is raised.
\<close>

theorem success_rate_formula_and_range:
  assumes load: "json_load w fp = Loaded data"
    and ret: "count_models w fp = (out, Inr (Some s))"
  shows "(total_models s = 0 \<longrightarrow> success_rate s = PInt 0) \<and>
         (total_models s \<noteq> 0 \<longrightarrow>
            0 < total_models s \<and>
            success_rate s =
              PFloat (Finite (round_decimal 2
                (round_double
                   (round_double (of_int (successful_models s) / of_int (total_models s)) *
                    100))))) \<and>
         (\<exists>r. num_value (success_rate s) = Some r \<and> 0 \<le> r \<and> r \<le> 100) \<and>
         snd (count_models w fp) \<noteq> Inl ZeroDivisionError"
proof -
  from ret load have sm: "summarise w fp data = Inr s"
    by (auto simp: count_models_loaded split: sum.splits)
  from sm obtain items t sc f ts rate where
    c: "count_results (0, 0, 0, []) items = Inr (t, sc, f, ts)"
    and s: "total_models s = t" "successful_models s = sc"
    and rate: "success_rate_of sc t = Inr rate" "py_round rate 2 = Inr (success_rate s)"
    by (rule summarise_InrD)
  note tally = count_results_tally [OF c]
  have t0: "0 \<le> t" and sc0: "0 \<le> sc" using tally by simp_all
  have sct: "sc \<le> t"
    using tally filter_conj_length_le [of is_model is_success items] by simp
  have zero: "success_rate s = PInt 0" if "t = 0"
    using rate that by (auto simp: success_rate_of_def)
  have pos: "0 < t \<and> success_rate s =
      PFloat (Finite (round_decimal 2
        (round_double (round_double (of_int sc / of_int t) * 100))))" if "t \<noteq> 0"
  proof -
    from that t0 have tp: "0 < t" by simp
    define y where "y = round_double (round_double (of_int sc / of_int t) * 100)"
    note v = success_rate_of_value [OF sc0 sct tp, folded y_def]
    from v(1) rate(1) have "rate = PFloat (Finite y)" by simp
    with rate(2) round_decimal_2_range(3) [OF v(2) v(3)]
    have "success_rate s = PFloat (Finite (round_decimal 2 y))"
      by (simp add: Let_def)
    with tp show ?thesis by (simp add: y_def)
  qed
  have range: "\<exists>r. num_value (success_rate s) = Some r \<and> 0 \<le> r \<and> r \<le> 100"
  proof (cases "t = 0")
    case True
    with zero show ?thesis by simp
  next
    case False
    from False t0 have tp: "0 < t" by simp
    define y where "y = round_double (round_double (of_int sc / of_int t) * 100)"
    note v = success_rate_of_value [OF sc0 sct tp, folded y_def]
    from pos [OF False] have "success_rate s = PFloat (Finite (round_decimal 2 y))"
      by (simp add: y_def)
    with round_decimal_2_range(1,2) [OF v(2) v(3)] show ?thesis by simp
  qed
  from zero pos range count_models_no_zde [OF load] s show ?thesis
    by simp
qed

theorem success_rate_formula_and_range_witness:
  "total_models three_models_stats \<noteq> 0 \<and>
   success_rate three_models_stats =
     PFloat (Finite (round_decimal 2 (round_double (round_double (2 / 3) * 100)))) \<and>
   success_rate three_models_stats = PFloat (Finite (4691484174324859 / 70368744177664)) \<and>
   (\<exists>r. num_value (success_rate three_models_stats) = Some r \<and> 0 \<le> r \<and> r \<le> 100) \<and>
   total_models (empty_stats ''odd/run_results.json'') = 0 \<and>
   success_rate (empty_stats ''odd/run_results.json'') = PInt 0"
proof -
  have l0: "json_load demo ''odd/run_results.json'' = Loaded (JDict [])"
    by (simp add: demo_def demo_load_def)
  have r0: "count_models demo ''odd/run_results.json'' =
      ([], Inr (Some (empty_stats ''odd/run_results.json'')))"
    by (simp add: count_models_loaded [OF l0] summarise_empty)
  from success_rate_formula_and_range [OF demo_load_three_models demo_three_models]
    success_rate_formula_and_range [OF l0 r0]
  show ?thesis
    by (simp add: three_models_stats_def empty_stats_def)
qed

text \<open>
  Claim C10. A record without \<^verbatim>\<open>unique_id\<close> field leaves the loop state as it is
  and raises nothing: the summary is the one of the report without that record.
\<close>

theorem record_without_unique_id_is_skipped:
  assumes "map_of r ''unique_id'' = None"
  shows "count_result c (JDict r) = Inr c \<and>
         count_models (put_file w fp (with_results d (xs @ JDict r # ys))) fp =
         count_models (put_file w fp (with_results d (xs @ ys))) fp"
proof -
  have step: "count_result c' (JDict r) = Inr c'" for c'
    using assms by (rule count_result_no_unique_id)
  have "count_results (0, 0, 0, []) (xs @ JDict r # ys) =
        count_results (0, 0, 0, []) (xs @ ys)"
    by (simp add: count_results_append step split: sum.splits)
  then have "summarise w fp (with_results d (xs @ JDict r # ys)) =
             summarise w fp (with_results d (xs @ ys))"
    unfolding with_results_def
    by (intro summarise_cong [where rs = "xs @ ys" and rs' = "xs @ JDict r # ys"])
       simp_all
  then show ?thesis
    by (simp add: count_models_put_file step)
qed

theorem record_without_unique_id_is_skipped_witness:
  "map_of [(''status'', JStr ''success''), (''execution_time'', JFloat (Finite 7))]
     ''unique_id'' = None \<and>
   count_result (5, 3, 2, [])
     (JDict [(''status'', JStr ''success''), (''execution_time'', JFloat (Finite 7))]) =
     Inr (5, 3, 2, []) \<and>
   count_models
     (put_file demo ''a.json''
        (with_results []
           ([model_record ''test.shop.t'' ''success'' (JInt 1)] @
            JDict [(''status'', JStr ''success''), (''execution_time'', JFloat (Finite 7))] #
            [])))
     ''a.json'' =
   count_models
     (put_file demo ''a.json''
        (with_results [] ([model_record ''test.shop.t'' ''success'' (JInt 1)] @ [])))
     ''a.json''"
proof -
  have h: "map_of [(''status'', JStr ''success''), (''execution_time'', JFloat (Finite 7))]
     ''unique_id'' = None"
    by simp
  from record_without_unique_id_is_skipped [OF h] h show ?thesis
    by blast
qed

text \<open>
  Claim C6, as amended. A timestamp that is a string never makes \<open>count_models\<close> fail:
  if the report yields a summary, the report with any string \<open>g\<close> as \<^verbatim>\<open>generated_at\<close>
  yields the same summary with the run date of \<open>g\<close>. That run date is \<^verbatim>\<open>unknown\<close> for
  the sentinel and for a string that \<^verbatim>\<open>fromisoformat\<close> rejects once each Z is replaced
  by \<^verbatim>\<open>+00:00\<close>, and the calendar date of the parsed value otherwise; a trailing Z
  becomes the zero offset; an absent timestamp gives \<^verbatim>\<open>unknown\<close>.
\<close>

theorem run_date_of_a_string_timestamp:
  assumes load: "json_load w fp = Loaded (JDict d)"
    and meta: "dict_get d ''metadata'' (JDict []) = JDict md"
    and ret: "count_models w fp = (out, Inr (Some s))"
  shows "count_models (put_file w fp (with_generated_at d md (JStr g))) fp =
           (out, Inr (Some (s\<lparr>run_date := string_run_date (fromisoformat w) g,
                               run_timestamp := JStr g\<rparr>))) \<and>
         (map_of md ''generated_at'' = None \<longrightarrow> run_date s = ''unknown'') \<and>
         run_date_of parse (JStr g) = Inr (string_run_date parse g) \<and>
         string_run_date parse ''unknown'' = ''unknown'' \<and>
         (parse (replace_char (CHR ''Z'') ''+00:00'' g) = None \<longrightarrow>
            string_run_date parse g = ''unknown'') \<and>
         (g \<noteq> ''unknown'' \<and> parse (replace_char (CHR ''Z'') ''+00:00'' g) = Some ts \<longrightarrow>
            string_run_date parse g = date_isoformat (date ts)) \<and>
         (CHR ''Z'' \<notin> set g0 \<longrightarrow>
            replace_char (CHR ''Z'') ''+00:00'' (g0 @ ''Z'') = g0 @ ''+00:00'') \<and>
         (parse ''2024-01-15T10:30:00+00:00'' = Some ts \<and>
          date ts = \<lparr>year = 2024, month = 1, day = 15\<rparr> \<longrightarrow>
            string_run_date parse ''2024-01-15T10:30:00Z'' = ''2024-01-15'')"
proof -
  from ret load have sm: "summarise w fp (JDict d) = Inr s" and out: "out = []"
    by (auto simp: count_models_loaded split: sum.splits)
  have 1: "count_models (put_file w fp (with_generated_at d md (JStr g))) fp =
           (out, Inr (Some (s\<lparr>run_date := string_run_date (fromisoformat w) g,
                               run_timestamp := JStr g\<rparr>)))"
    by (simp add: count_models_put_file summarise_with_generated_at [OF sm meta] out)
  have 2: "run_date s = ''unknown''" if "map_of md ''generated_at'' = None"
  proof -
    from sm obtain d' md' where "JDict d = JDict d'"
      and "dict_get d' ''metadata'' (JDict []) = JDict md'"
      and "run_date_of (fromisoformat w) (dict_get md' ''generated_at'' (JStr ''unknown'')) =
        Inr (run_date s)"
      by (rule summarise_InrD) blast
    with meta that show ?thesis
      by (simp add: dict_get_def run_date_of_def)
  qed
  have 3: "replace_char (CHR ''Z'') ''+00:00'' ''2024-01-15T10:30:00Z'' =
      ''2024-01-15T10:30:00+00:00''"
    by (simp add: replace_char_def)
  have 4: "date_isoformat \<lparr>year = 2024, month = 1, day = 15\<rparr> = ''2024-01-15''"
    by (simp add: date_isoformat_def zfill_def decimal.simps digit_def)
  have 5: "replace_char (CHR ''Z'') ''+00:00'' (g0 @ ''Z'') = g0 @ ''+00:00''"
    if "CHR ''Z'' \<notin> set g0"
    using that by (rule replace_trailing)
  have 6: "string_run_date parse ''2024-01-15T10:30:00Z'' = ''2024-01-15''"
    if "parse ''2024-01-15T10:30:00+00:00'' = Some ts"
      and "date ts = \<lparr>year = 2024, month = 1, day = 15\<rparr>"
    unfolding string_run_date_def 3 using that 4 by simp
  have 7: "string_run_date parse ''unknown'' = ''unknown''"
    by (simp add: string_run_date_def)
  have 8: "string_run_date parse g = ''unknown''"
    if "parse (replace_char (CHR ''Z'') ''+00:00'' g) = None"
    using that by (simp add: string_run_date_def)
  have 9: "string_run_date parse g = date_isoformat (date ts)"
    if "g \<noteq> ''unknown''" and "parse (replace_char (CHR ''Z'') ''+00:00'' g) = Some ts"
    using that by (simp add: string_run_date_def)
  note 10 = run_date_of_string [of parse g]
  from 1 2 5 6 7 8 9 10 show ?thesis
    by blast
qed

theorem run_date_of_a_string_timestamp_witness:
  "count_models
     (put_file demo ''logs/sub/run_results.json''
        (with_generated_at [(''results'', JList mixed_results)] []
           (JStr ''2024-01-15T10:30:00Z'')))
     ''logs/sub/run_results.json'' =
     ([], Inr (Some (mixed_stats\<lparr>run_date := ''2024-01-15'',
                                  run_timestamp := JStr ''2024-01-15T10:30:00Z''\<rparr>))) \<and>
   count_models
     (put_file demo ''logs/sub/run_results.json''
        (with_generated_at [(''results'', JList mixed_results)] [] (JStr ''yesterday'')))
     ''logs/sub/run_results.json'' =
     ([], Inr (Some (mixed_stats\<lparr>run_date := ''unknown'',
                                  run_timestamp := JStr ''yesterday''\<rparr>))) \<and>
   run_date mixed_stats = ''unknown'' \<and>
   iso_parser ''2024-01-15T10:30:00+00:00'' =
     Some \<lparr>date = \<lparr>year = 2024, month = 1, day = 15\<rparr>, hour = 10, minute = 30, second = 0,
           microsecond = 0, utcoffset = Some 0\<rparr> \<and>
   iso_parser ''yesterday'' = None"
proof -
  have m: "dict_get [(''results'', JList mixed_results)] ''metadata'' (JDict []) = JDict []"
    by (simp add: dict_get_def)
  have p: "iso_parser ''2024-01-15T10:30:00+00:00'' =
     Some \<lparr>date = \<lparr>year = 2024, month = 1, day = 15\<rparr>, hour = 10, minute = 30, second = 0,
           microsecond = 0, utcoffset = Some 0\<rparr>"
    by (simp add: iso_parser_def parse_date_def parse_clock_def parse_offset_def number_def
          digit_value_def days_in_month_def leap_year_def Let_def)
  have q: "iso_parser ''yesterday'' = None"
    by (simp add: iso_parser_def parse_date_def)
  have f: "fromisoformat demo = iso_parser"
    by (simp add: demo_def)
  note t = run_date_of_a_string_timestamp [OF demo_load_mixed m demo_mixed]
  note t1 = t [where g = "''2024-01-15T10:30:00Z''" and parse = iso_parser and g0 = "[]"
      and ts = "\<lparr>date = \<lparr>year = 2024, month = 1, day = 15\<rparr>, hour = 10, minute = 30,
           second = 0, microsecond = 0, utcoffset = Some 0\<rparr>"]
  note t2 = t [where g = "''yesterday''" and parse = iso_parser and g0 = "[]"
      and ts = "\<lparr>date = \<lparr>year = 2024, month = 1, day = 15\<rparr>, hour = 10, minute = 30,
           second = 0, microsecond = 0, utcoffset = Some 0\<rparr>"]
  have r: "replace_char (CHR ''Z'') ''+00:00'' ''yesterday'' = ''yesterday''"
    by (simp add: replace_char_def)
  have d1: "string_run_date iso_parser ''2024-01-15T10:30:00Z'' = ''2024-01-15''"
    using t1 p by simp
  have d2: "string_run_date iso_parser ''yesterday'' = ''unknown''"
    using t2 q r by simp
  from t1 t2 have
    "count_models
     (put_file demo ''logs/sub/run_results.json''
        (with_generated_at [(''results'', JList mixed_results)] []
           (JStr ''2024-01-15T10:30:00Z'')))
     ''logs/sub/run_results.json'' =
     ([], Inr (Some (mixed_stats\<lparr>run_date := string_run_date (fromisoformat demo) ''2024-01-15T10:30:00Z'',
                                  run_timestamp := JStr ''2024-01-15T10:30:00Z''\<rparr>)))"
    and "count_models
     (put_file demo ''logs/sub/run_results.json''
        (with_generated_at [(''results'', JList mixed_results)] [] (JStr ''yesterday'')))
     ''logs/sub/run_results.json'' =
     ([], Inr (Some (mixed_stats\<lparr>run_date := string_run_date (fromisoformat demo) ''yesterday'',
                                  run_timestamp := JStr ''yesterday''\<rparr>)))"
    and "run_date mixed_stats = ''unknown''"
    by simp_all
  with p q d1 d2 f show ?thesis by simp
qed

text \<open>
  Claim C6 as stated fails for a timestamp that is not a string: \<^verbatim>\<open>null\<close> is not the
  sentinel, has no \<^verbatim>\<open>replace\<close> method, and the \<^verbatim>\<open>AttributeError\<close> is not the
  \<^verbatim>\<open>ValueError\<close> that the source catches.
\<close>

theorem null_timestamp_counterexample:
  "json_load demo ''null_timestamp.json'' =
     Loaded (JDict [(''metadata'', JDict [(''generated_at'', JNull)])]) \<and>
   count_models demo ''null_timestamp.json'' = ([], Inl AttributeError)"
proof -
  have l: "json_load demo ''null_timestamp.json'' =
     Loaded (JDict [(''metadata'', JDict [(''generated_at'', JNull)])])"
    by (simp add: demo_def demo_load_def null_timestamp_doc_def)
  have "summarise demo ''null_timestamp.json''
      (JDict [(''metadata'', JDict [(''generated_at'', JNull)])]) = Inl AttributeError"
    by (simp add: summarise_def bind_err_def dict_get_def success_rate_of_def avg_of_def
          py_sum_def run_date_of_def)
  with l show ?thesis
    by (simp add: count_models_loaded)
qed

text \<open>
  Claim C7. For a directory, \<open>find_run_results_files\<close> returns the matches of the three
  patterns together, strictly increasing in the lexicographic order, hence sorted and
  without repeats.
\<close>

theorem discovery_in_a_directory:
  assumes "isdir w p" and "\<not> isfile w p"
  shows "set (fst (find_run_results_files w p)) =
           set (glob w (path_join p ''run_results.json'') False) \<union>
           set (glob w (path_join p ''**/run_results.json'') True) \<union>
           set (glob w (path_join p ''run_results*.json'') False) \<and>
         sorted_wrt (<) (fst (find_run_results_files w p)) \<and>
         path_join p ''run_results.json'' =
           (if p = [] \<or> endswith p ''/'' then p else p @ ''/'') @ ''run_results.json''"
  using assms
  by (simp add: find_run_results_files_def Let_def strict_sorted_iff path_join_def
        startswith_def Un_assoc)

theorem discovery_in_a_directory_witness:
  "isdir demo ''logs'' \<and> \<not> isfile demo ''logs'' \<and>
   fst (find_run_results_files demo ''logs'') =
     [''logs/run_results.json'', ''logs/run_results_old.json'', ''logs/sub/run_results.json''] \<and>
   set (fst (find_run_results_files demo ''logs'')) =
     set (glob demo ''logs/run_results.json'' False) \<union>
     set (glob demo ''logs/**/run_results.json'' True) \<union>
     set (glob demo ''logs/run_results*.json'' False) \<and>
   sorted_wrt (<) (fst (find_run_results_files demo ''logs''))"
proof -
  have d: "isdir demo ''logs''" and f: "\<not> isfile demo ''logs''"
    by (simp_all add: demo_def)
  have j: "path_join ''logs'' ''run_results.json'' = ''logs/run_results.json''"
    "path_join ''logs'' ''**/run_results.json'' = ''logs/**/run_results.json''"
    "path_join ''logs'' ''run_results*.json'' = ''logs/run_results*.json''"
    by (simp_all add: path_join_def startswith_def endswith_def suffix_to_prefix)
  from discovery_in_a_directory [OF d f] d f demo_logs_files show ?thesis
    unfolding j by simp
qed






end
